theory Spec2Isabelle
  imports Main "HOL-Library.AList"
begin

section \<open>The SimBricks main runner: event routing and run lifecycle\<close>

text \<open>
  A shallow embedding of \<^verbatim>\<open>simbricks/runner/main_runner/__main__.py\<close>.
  Python objects live in stores indexed by references (natural numbers), because
  callbacks, handler tables and runs alias each other.  A Python \<^verbatim>\<open>dict\<close> is an
  association list in insertion order (\<^const>\<open>AList.update\<close> overwrites in place
  or appends, as a dict does); a Python \<^verbatim>\<open>set\<close> of objects is a list of references
  whose order stands for the iteration order of the set.  Every exception is a value:
  a function returns the error or the result, together with the state as the
  exception left it.  Calls to the backend client, to executor plugins and to the
  parsers are appended to a trace, and what they return is read from a \<open>world\<close>
  that may answer differently after every history.  Each coroutine is modelled as
  running without interleaving of other tasks; logging is left out.
\<close>

subsection \<open>Schema types\<close>

datatype api_event_status =
  ApiEventStatus_PENDING | ApiEventStatus_COMPLETED | ApiEventStatus_CANCELLED | ApiEventStatus_ERROR

datatype run_state =
  RunState_SPAWNED | RunState_STARTING | RunState_RUNNING
  | RunState_COMPLETED | RunState_ERROR | RunState_CANCELLED

text \<open>
  Modelled from the spec: the declaration of \<^verbatim>\<open>schemas.RunState\<close> is not in the
  source file.  The specification lists the states as SPAWNED, STARTING, RUNNING,
  COMPLETED, ERROR, CANCELLED, "ordered so that any state \<ge> COMPLETED is terminal".
\<close>

fun run_state_rank :: "run_state \<Rightarrow> nat" where
  "run_state_rank RunState_SPAWNED = 0"
| "run_state_rank RunState_STARTING = 1"
| "run_state_rank RunState_RUNNING = 2"
| "run_state_rank RunState_COMPLETED = 3"
| "run_state_rank RunState_ERROR = 4"
| "run_state_rank RunState_CANCELLED = 5"

definition run_state_less :: "run_state \<Rightarrow> run_state \<Rightarrow> bool" where
  "run_state_less a b = (run_state_rank a < run_state_rank b)"

datatype run_event_type = KILL | SIMULATION_STATUS | START_RUN

datatype runner_event_type = heartbeat

datatype api_event_type =
  ApiEventCreate | ApiEventUpdate | ApiEventDelete | ApiEventQuery | ApiEventRead

record api_fragment =
  fragment_id :: int
  object_id :: int
  fragment_executor_tag :: "string option"

record api_run_fragment =
  rf_id :: int
  rf_fragment :: api_fragment

text \<open>The fields of \<^verbatim>\<open>ApiRunEventStartRunRead\<close> that a plain run event lacks.\<close>

record api_start_run =
  system_sb_json :: string
  simulation_sb_json :: string
  inst_id :: int
  inst_sb_json :: string
  fragments :: "api_run_fragment list"
  inst_input_artifact :: "string option"
  fragment_input_artifact :: "string option"

text \<open>
  \<^verbatim>\<open>ApiRunEventRead\<close>; an instance of its subclass \<^verbatim>\<open>ApiRunEventStartRunRead\<close>
  carries its further fields in \<open>as_start_run\<close>.
\<close>

record api_run_event_read =
  ev_id :: int
  ev_run_id :: "int option"
  run_event_type :: run_event_type
  event_discriminator :: string
  as_start_run :: "api_start_run option"

datatype api_event =
    ApiRunEventUpdate int int "int option" "api_event_status option"
      \<comment> \<open>id, runner id, run id, event status\<close>
  | ApiRunnerEventUpdate int int "api_event_status option"
      \<comment> \<open>id, runner id, event status\<close>
  | ApiOtherEventUpdate string int "api_event_status option"
      \<comment> \<open>any other update event: discriminator, id, event status\<close>
  | ApiRunFragmentStateEventCreate int int run_state
      \<comment> \<open>run id, run fragment id, run state\<close>
  | ApiRunFragmentOutputArtifactEventCreate int int string string
      \<comment> \<open>run id, run fragment id, output artifact (base64), output artifact name\<close>
  | ApiRunEventRead api_run_event_read
  | ApiRunnerEventRead int runner_event_type
  | ApiEventQueryOf string "int list" "api_event_status list" "run_event_type list"
      \<comment> \<open>a query: discriminator, runner ids, event status, run event types\<close>
  | ApiOtherEvent string
      \<comment> \<open>any other event, by its discriminator\<close>

fun discriminator_of :: "api_event \<Rightarrow> string" where
  "discriminator_of (ApiRunEventUpdate _ _ _ _) = ''ApiRunEventUpdate''"
| "discriminator_of (ApiRunnerEventUpdate _ _ _) = ''ApiRunnerEventUpdate''"
| "discriminator_of (ApiOtherEventUpdate d _ _) = d"
| "discriminator_of (ApiRunFragmentStateEventCreate _ _ _) = ''ApiRunFragmentStateEventCreate''"
| "discriminator_of (ApiRunFragmentOutputArtifactEventCreate _ _ _ _) =
     ''ApiRunFragmentOutputArtifactEventCreate''"
| "discriminator_of (ApiRunEventRead e) = event_discriminator e"
| "discriminator_of (ApiRunnerEventRead _ _) = ''ApiRunnerEventRead''"
| "discriminator_of (ApiEventQueryOf d _ _ _) = d"
| "discriminator_of (ApiOtherEvent d) = d"

text \<open>The attributes \<^verbatim>\<open>event.id\<close> and \<^verbatim>\<open>event.event_status\<close>; \<open>None\<close> when the
  event's class has no such attribute.\<close>

fun id_attr :: "api_event \<Rightarrow> int option" where
  "id_attr (ApiRunEventUpdate i _ _ _) = Some i"
| "id_attr (ApiRunnerEventUpdate i _ _) = Some i"
| "id_attr (ApiOtherEventUpdate _ i _) = Some i"
| "id_attr (ApiRunEventRead e) = Some (ev_id e)"
| "id_attr (ApiRunnerEventRead i _) = Some i"
| "id_attr _ = None"

fun event_status_attr :: "api_event \<Rightarrow> api_event_status option option" where
  "event_status_attr (ApiRunEventUpdate _ _ _ st) = Some st"
| "event_status_attr (ApiRunnerEventUpdate _ _ st) = Some st"
| "event_status_attr (ApiOtherEventUpdate _ _ st) = Some st"
| "event_status_attr _ = None"

text \<open>The assignment \<^verbatim>\<open>update.event_status = st\<close>.\<close>

fun set_event_status :: "api_event_status \<Rightarrow> api_event \<Rightarrow> api_event" where
  "set_event_status st (ApiRunEventUpdate i r ri _) = ApiRunEventUpdate i r ri (Some st)"
| "set_event_status st (ApiRunnerEventUpdate i r _) = ApiRunnerEventUpdate i r (Some st)"
| "set_event_status st (ApiOtherEventUpdate d i _) = ApiOtherEventUpdate d i (Some st)"
| "set_event_status st e = e"

subsection \<open>Event bundles\<close>

type_synonym api_event_bundle = "(string \<times> api_event list) list"

text \<open>
  Modelled from the spec: \<^verbatim>\<open>schemas.ApiEventBundle\<close> is not in the source file.
  The specification gives it as "a mapping from event-type-name to ordered list of
  events, plus add_event, add_events, empty operations"; an event is filed under its
  own event-type name.
\<close>

definition add_event :: "api_event \<Rightarrow> api_event_bundle \<Rightarrow> api_event_bundle" where
  "add_event e b =
     (case map_of b (discriminator_of e) of
        None \<Rightarrow> b @ [(discriminator_of e, [e])]
      | Some es \<Rightarrow> AList.update (discriminator_of e) (es @ [e]) b)"

fun add_events :: "api_event list \<Rightarrow> api_event_bundle \<Rightarrow> api_event_bundle" where
  "add_events [] b = b"
| "add_events (e # es) b = add_events es (add_event e b)"

definition empty_bundle :: "api_event_bundle \<Rightarrow> bool" where
  "empty_bundle b = (b = [])"

text \<open>All events of a bundle, key by key.\<close>

definition bundle_events :: "api_event_bundle \<Rightarrow> api_event list" where
  "bundle_events b = concat (map snd b)"

subsection \<open>Errors, external calls and the world\<close>

datatype py_error =
  KeyError | AssertionError | IndexError | AttributeError | RuntimeError
  | ValidationError | ExternalError

type_synonym ref = nat

text \<open>A loaded YAML document; mapping keys are strings.\<close>

datatype yaml = YDict "(string \<times> yaml) list" | YList "yaml list" | YStr string | YNone

datatype action =
    UpdateEvents api_event_bundle
  | CreateEvents api_event_bundle
  | DeleteEvents api_event_bundle
  | FetchEvents api_event_bundle
  | UpdateRun int run_state string
  | SendHeartbeat
  | SetRunFragmentOutputArtifactRaw int string string
      \<comment> \<open>run fragment id, name of the stream, bytes of the stream\<close>
  | GetInstInputArtifactRaw int
  | GetFragmentInputArtifactRaw int int
  | PluginStart ref string "(string \<times> yaml) list" string
      \<comment> \<open>the new plugin instance, its plugin class, settings, parameters\<close>
  | PluginSendEvents ref api_event_bundle api_event_type
  | PluginStop ref
  | LoadPlugin string

text \<open>The parsed instantiation, as far as \<^verbatim>\<open>_start_run\<close> reads it.\<close>

record sb_fragment =
  sbf_id :: int
  sbf_parameters :: string
  sbf_input_artifact_paths :: "string list"

record sb_instantiation =
  sbi_fragments :: "sb_fragment list"
  sbi_input_artifact_paths :: "string list"

text \<open>
  The collaborators outside the source file.  \<open>returns_ok\<close> says whether an external
  call returns or raises, given the calls made so far; \<open>returned_bytes\<close> and
  \<open>returned_events\<close> are what it returns.  \<open>fromJSON\<close> stands for the three parser
  calls of \<^verbatim>\<open>_start_run\<close> (\<open>None\<close>: one of them raised), \<open>b64decode\<close> and
  \<open>b64encode\<close> for Python's \<^verbatim>\<open>base64\<close> module on UTF-8 strings.
\<close>

record world =
  returns_ok :: "action list \<Rightarrow> action \<Rightarrow> bool"
  returned_bytes :: "action list \<Rightarrow> action \<Rightarrow> string"
  returned_events :: "action list \<Rightarrow> action \<Rightarrow> api_event_bundle option"
  fromJSON :: "string \<Rightarrow> string \<Rightarrow> string \<Rightarrow> sb_instantiation option"
  b64decode :: "string \<Rightarrow> string option"
  b64encode :: "string \<Rightarrow> string"

subsection \<open>Objects and the runner's state\<close>

datatype handler_kind = CreateHandlers | UpdateHandlers | DeleteHandlers | QueryHandlers

text \<open>A handler table is one of the four dicts of a \<^verbatim>\<open>FragmentRunner\<close>; a reference to it
  names the runner and the dict.\<close>

type_synonym handler_table = "(string \<times> ref list) list"
type_synonym handler_ref = "ref \<times> handler_kind"

record fragment_runner =
  fr_name :: string
  read_task_running :: bool
  create_event_handlers :: handler_table
  update_event_handlers :: handler_table
  delete_event_handlers :: handler_table
  query_event_handlers :: handler_table

record bundle_updates =
  event_id :: int
  runners :: nat
  received_updates :: nat
  success :: bool
  update_event :: api_event

datatype callback_class =
    BundleUpdatesEventCallback bundle_updates
  | RunFragmentStateCallback ref  \<comment> \<open>the run object\<close>
  | RunFragmentOutputArtifactCallback int  \<comment> \<open>the run id\<close>

record event_callback =
  handlers :: "handler_ref list"
  event_type :: string
  cb_class :: callback_class

record main_run =
  run_id :: int
  fragment_runner_map :: "(int \<times> ref) list"
  cancelled :: bool
  fragment_run_state :: "(int \<times> run_state) list"
  run_state_callback :: "ref option"
  output_artifact_callback :: "ref option"

record fragment_executor_configuration =
  cfg_name :: string
  cfg_plugin :: string
  cfg_settings :: "(string \<times> yaml) list"

record main_runner =
  ident :: int
  fragment_executor_configs :: "(string \<times> fragment_executor_configuration) list"
  available_fragment_executors :: "string list"
  fragment_runners :: "(string \<times> ref list) list"
  run_map :: "(int \<times> ref) list"
  runner_objs :: "ref \<Rightarrow> fragment_runner"
  run_objs :: "ref \<Rightarrow> main_run"
  callback_objs :: "ref \<Rightarrow> event_callback"
  next_ref :: ref
  trace :: "action list"

type_synonym 'a res = "(py_error + 'a) \<times> main_runner"

text \<open>Sequencing: an exception skips the rest and keeps the state it left.\<close>

definition and_then :: "'a res \<Rightarrow> ('a \<Rightarrow> main_runner \<Rightarrow> 'b res) \<Rightarrow> 'b res" where
  "and_then r f = (case r of (Inl e, s) \<Rightarrow> (Inl e, s) | (Inr x, s) \<Rightarrow> f x s)"

text \<open>An external call: recorded in the trace whether it returns or raises.\<close>

definition call :: "world \<Rightarrow> action \<Rightarrow> main_runner \<Rightarrow> unit res" where
  "call w a s =
     (if returns_ok w (trace s) a then (Inr (), s\<lparr>trace := trace s @ [a]\<rparr>)
      else (Inl ExternalError, s\<lparr>trace := trace s @ [a]\<rparr>))"

definition call_bytes :: "world \<Rightarrow> action \<Rightarrow> main_runner \<Rightarrow> string res" where
  "call_bytes w a s =
     (if returns_ok w (trace s) a
      then (Inr (returned_bytes w (trace s) a), s\<lparr>trace := trace s @ [a]\<rparr>)
      else (Inl ExternalError, s\<lparr>trace := trace s @ [a]\<rparr>))"

definition call_events :: "world \<Rightarrow> action \<Rightarrow> main_runner \<Rightarrow> api_event_bundle option res" where
  "call_events w a s =
     (if returns_ok w (trace s) a
      then (Inr (returned_events w (trace s) a), s\<lparr>trace := trace s @ [a]\<rparr>)
      else (Inl ExternalError, s\<lparr>trace := trace s @ [a]\<rparr>))"

subsection \<open>Python sets of objects\<close>

definition set_add :: "ref \<Rightarrow> ref list \<Rightarrow> ref list" where
  "set_add x xs = (if x \<in> set xs then xs else xs @ [x])"

text \<open>\<^verbatim>\<open>set.remove\<close> raises \<^verbatim>\<open>KeyError\<close> when the element is absent.\<close>

definition set_remove :: "ref \<Rightarrow> ref list \<Rightarrow> py_error + ref list" where
  "set_remove x xs = (if x \<in> set xs then Inr (removeAll x xs) else Inl KeyError)"

subsection \<open>Handler tables\<close>

definition table_of :: "fragment_runner \<Rightarrow> handler_kind \<Rightarrow> handler_table" where
  "table_of r k =
     (case k of CreateHandlers \<Rightarrow> create_event_handlers r
      | UpdateHandlers \<Rightarrow> update_event_handlers r
      | DeleteHandlers \<Rightarrow> delete_event_handlers r
      | QueryHandlers \<Rightarrow> query_event_handlers r)"

definition with_table :: "handler_kind \<Rightarrow> handler_table \<Rightarrow> fragment_runner \<Rightarrow> fragment_runner" where
  "with_table k t r =
     (case k of CreateHandlers \<Rightarrow> r\<lparr>create_event_handlers := t\<rparr>
      | UpdateHandlers \<Rightarrow> r\<lparr>update_event_handlers := t\<rparr>
      | DeleteHandlers \<Rightarrow> r\<lparr>delete_event_handlers := t\<rparr>
      | QueryHandlers \<Rightarrow> r\<lparr>query_event_handlers := t\<rparr>)"

definition get_table :: "main_runner \<Rightarrow> handler_ref \<Rightarrow> handler_table" where
  "get_table s h = table_of (runner_objs s (fst h)) (snd h)"

definition put_table :: "handler_ref \<Rightarrow> handler_table \<Rightarrow> main_runner \<Rightarrow> main_runner" where
  "put_table h t s =
     s\<lparr>runner_objs := (runner_objs s)(fst h := with_table (snd h) t (runner_objs s (fst h)))\<rparr>"

subsection \<open>\<^verbatim>\<open>EventCallback\<close>\<close>

text \<open>
  \<^verbatim>\<open>EventCallback.__init__\<close>: \<^verbatim>\<open>hs = handler.setdefault(self.event_type, set()); hs.add(self)\<close>
  for every handler table.
\<close>

fun register_callback :: "ref \<Rightarrow> string \<Rightarrow> handler_ref list \<Rightarrow> main_runner \<Rightarrow> main_runner" where
  "register_callback c et [] s = s"
| "register_callback c et (h # hs) s =
     register_callback c et hs
       (put_table h
          (case map_of (get_table s h) et of
             None \<Rightarrow> AList.update et [c] (get_table s h)
           | Some cs \<Rightarrow> AList.update et (set_add c cs) (get_table s h)) s)"

text \<open>Construction of a callback object: allocation, then \<^verbatim>\<open>__init__\<close>.\<close>

definition new_callback ::
  "handler_ref list \<Rightarrow> string \<Rightarrow> callback_class \<Rightarrow> main_runner \<Rightarrow> ref \<times> main_runner" where
  "new_callback hs et cls s =
     (let c = next_ref s;
          s1 = s\<lparr>next_ref := Suc c,
                 callback_objs := (callback_objs s)
                   (c := \<lparr>handlers = hs, event_type = et, cb_class = cls\<rparr>)\<rparr>
      in (c, register_callback c et hs s1))"

text \<open>
  \<^verbatim>\<open>EventCallback.remove_callback\<close>: \<^verbatim>\<open>handler[self.event_type].remove(self)\<close> for every
  handler table; the dict lookup and the set removal both raise \<^verbatim>\<open>KeyError\<close>.
\<close>

fun remove_from :: "ref \<Rightarrow> string \<Rightarrow> handler_ref list \<Rightarrow> main_runner \<Rightarrow> unit res" where
  "remove_from c et [] s = (Inr (), s)"
| "remove_from c et (h # hs) s =
     (case map_of (get_table s h) et of
        None \<Rightarrow> (Inl KeyError, s)
      | Some cs \<Rightarrow>
          (case set_remove c cs of
             Inl e \<Rightarrow> (Inl e, s)
           | Inr cs' \<Rightarrow> remove_from c et hs (put_table h (AList.update et cs' (get_table s h)) s)))"

definition remove_callback :: "ref \<Rightarrow> main_runner \<Rightarrow> unit res" where
  "remove_callback c s =
     remove_from c (event_type (callback_objs s c)) (handlers (callback_objs s c)) s"

text \<open>\<^verbatim>\<open>passthrough()\<close> of the three callback classes.\<close>

fun passthrough :: "callback_class \<Rightarrow> bool" where
  "passthrough (BundleUpdatesEventCallback _) = False"
| "passthrough (RunFragmentStateCallback _) = True"
| "passthrough (RunFragmentOutputArtifactCallback _) = False"

definition set_callback_class :: "ref \<Rightarrow> callback_class \<Rightarrow> main_runner \<Rightarrow> main_runner" where
  "set_callback_class c cls s =
     s\<lparr>callback_objs := (callback_objs s)(c := (callback_objs s c)\<lparr>cb_class := cls\<rparr>)\<rparr>"

text \<open>\<^verbatim>\<open>BundleUpdatesEventCallback.callback\<close>.\<close>

definition bundle_updates_callback ::
  "world \<Rightarrow> ref \<Rightarrow> bundle_updates \<Rightarrow> api_event \<Rightarrow> main_runner \<Rightarrow> bool res" where
  "bundle_updates_callback w c b event s =
     (case id_attr event of
        None \<Rightarrow> (Inl AttributeError, s)
      | Some i \<Rightarrow>
          if event_id b \<noteq> i then (Inr False, s)
          else if \<not> received_updates b < runners b then (Inl AssertionError, s)
          else
            (case event_status_attr event of
               None \<Rightarrow>
                 (Inl AttributeError,
                  set_callback_class c
                    (BundleUpdatesEventCallback (b\<lparr>received_updates := received_updates b + 1\<rparr>)) s)
             | Some st \<Rightarrow>
                 (let b1 = b\<lparr>received_updates := received_updates b + 1\<rparr>;
                      b2 = (if st \<noteq> Some ApiEventStatus_COMPLETED then b1\<lparr>success := False\<rparr> else b1)
                  in if received_updates b2 = runners b2
                     then
                       (let b3 = b2\<lparr>update_event :=
                                  set_event_status
                                    (if success b2 then ApiEventStatus_COMPLETED
                                     else ApiEventStatus_ERROR)
                                    (update_event b2)\<rparr>;
                            s3 = set_callback_class c (BundleUpdatesEventCallback b3) s
                        in and_then (call w (UpdateEvents (add_event (update_event b3) [])) s3)
                             (\<lambda>_ s4. and_then (remove_callback c s4) (\<lambda>_ s5. (Inr True, s5))))
                     else (Inr True, set_callback_class c (BundleUpdatesEventCallback b2) s))))"

text \<open>\<^verbatim>\<open>RunFragmentStateCallback.callback\<close>.\<close>

definition run_fragment_state_callback :: "ref \<Rightarrow> api_event \<Rightarrow> main_runner \<Rightarrow> bool res" where
  "run_fragment_state_callback run event s =
     (case event of
        ApiRunFragmentStateEventCreate rid rfid st \<Rightarrow>
          if rid \<noteq> run_id (run_objs s run) then (Inr False, s)
          else
            (Inr True,
             s\<lparr>run_objs := (run_objs s)
                 (run := (run_objs s run)
                    \<lparr>fragment_run_state :=
                       AList.update rfid st (fragment_run_state (run_objs s run))\<rparr>)\<rparr>)
      | _ \<Rightarrow> (Inl AssertionError, s))"

text \<open>\<^verbatim>\<open>RunFragmentOutputArtifactCallback.callback\<close>.\<close>

definition run_fragment_output_artifact_callback ::
  "world \<Rightarrow> int \<Rightarrow> api_event \<Rightarrow> main_runner \<Rightarrow> bool res" where
  "run_fragment_output_artifact_callback w rid0 event s =
     (case event of
        ApiRunFragmentOutputArtifactEventCreate rid rfid output_artifact output_artifact_name \<Rightarrow>
          if rid \<noteq> rid0 then (Inr False, s)
          else
            (case b64decode w output_artifact of
               None \<Rightarrow> (Inl ExternalError, s)
             | Some bytes \<Rightarrow>
                 and_then
                   (call w (SetRunFragmentOutputArtifactRaw rfid output_artifact_name bytes) s)
                   (\<lambda>_ s1. (Inr True, s1)))
      | _ \<Rightarrow> (Inl AssertionError, s))"

text \<open>The method call \<^verbatim>\<open>callback.callback(event)\<close>, dispatched on the object's class.\<close>

definition callback :: "world \<Rightarrow> ref \<Rightarrow> api_event \<Rightarrow> main_runner \<Rightarrow> bool res" where
  "callback w c event s =
     (case cb_class (callback_objs s c) of
        BundleUpdatesEventCallback b \<Rightarrow> bundle_updates_callback w c b event s
      | RunFragmentStateCallback run \<Rightarrow> run_fragment_state_callback run event s
      | RunFragmentOutputArtifactCallback rid \<Rightarrow> run_fragment_output_artifact_callback w rid event s)"

subsection \<open>\<^verbatim>\<open>_apply_callbacks\<close> and the executor event router\<close>

text \<open>
  The loop \<^verbatim>\<open>for callback in callbacks[event_type]\<close> with its \<^verbatim>\<open>break\<close> and
  \<^verbatim>\<open>else\<close>, for one event.  The result says whether the event is added to the
  passthrough bundle.  The set is read once, when the loop starts: a callback that
  returns false does not touch it (lemma \<open>callback_False_state\<close>).
\<close>

fun run_callbacks :: "world \<Rightarrow> ref list \<Rightarrow> api_event \<Rightarrow> main_runner \<Rightarrow> bool res" where
  "run_callbacks w [] event s = (Inr True, s)"
| "run_callbacks w (c # cs) event s =
     (case callback w c event s of
        (Inl e, s') \<Rightarrow> (Inl e, s')
      | (Inr matched, s') \<Rightarrow>
          if matched then (Inr (passthrough (cb_class (callback_objs s' c))), s')
          else run_callbacks w cs event s')"

text \<open>The loop \<^verbatim>\<open>for event in events\<close> under one key that is in the table.\<close>

fun apply_to_events ::
  "world \<Rightarrow> handler_ref \<Rightarrow> string \<Rightarrow> api_event list \<Rightarrow> api_event_bundle \<Rightarrow> main_runner
   \<Rightarrow> api_event_bundle res" where
  "apply_to_events w h et [] out s = (Inr out, s)"
| "apply_to_events w h et (event # events) out s =
     (case map_of (get_table s h) et of
        None \<Rightarrow> (Inl KeyError, s)
      | Some cs \<Rightarrow>
          (case run_callbacks w cs event s of
             (Inl e, s') \<Rightarrow> (Inl e, s')
           | (Inr fwd, s') \<Rightarrow>
               apply_to_events w h et events (if fwd then add_event event out else out) s'))"

text \<open>The loop \<^verbatim>\<open>for event_type, events in event_bundle.events.items()\<close>.\<close>

fun apply_to_items ::
  "world \<Rightarrow> handler_ref \<Rightarrow> api_event_bundle \<Rightarrow> api_event_bundle \<Rightarrow> main_runner
   \<Rightarrow> api_event_bundle res" where
  "apply_to_items w h [] out s = (Inr out, s)"
| "apply_to_items w h ((et, events) # items) out s =
     (if map_of (get_table s h) et = None
      then apply_to_items w h items (add_events events out) s
      else
        (case apply_to_events w h et events out s of
           (Inl e, s') \<Rightarrow> (Inl e, s')
         | (Inr out', s') \<Rightarrow> apply_to_items w h items out' s'))"

definition apply_callbacks ::
  "world \<Rightarrow> api_event_bundle \<Rightarrow> handler_ref \<Rightarrow> main_runner \<Rightarrow> api_event_bundle res" where
  "apply_callbacks w event_bundle callbacks s = apply_to_items w callbacks event_bundle [] s"

text \<open>A \<^verbatim>\<open>FragmentRunnerEvent\<close> taken from the queue.\<close>

record fragment_runner_event =
  fre_fragment_runner :: ref
  fre_event_type :: api_event_type
  fre_event_bundle :: api_event_bundle

text \<open>The end of an iteration of the router: read events go back to the executor.\<close>

definition send_read_events ::
  "world \<Rightarrow> ref \<Rightarrow> api_event_bundle option \<Rightarrow> main_runner \<Rightarrow> unit res" where
  "send_read_events w r read_events s =
     (case read_events of
        None \<Rightarrow> (Inr (), s)
      | Some b \<Rightarrow>
          if \<not> empty_bundle b then call w (PluginSendEvents r b ApiEventRead) s
          else (Inr (), s))"

text \<open>One iteration of \<^verbatim>\<open>_handle_fragment_runner_events\<close>, for the event taken from
  the queue.\<close>

definition handle_fragment_runner_event ::
  "world \<Rightarrow> fragment_runner_event \<Rightarrow> main_runner \<Rightarrow> unit res" where
  "handle_fragment_runner_event w event s =
     (let r = fre_fragment_runner event in
      case fre_event_type event of
        ApiEventCreate \<Rightarrow>
          and_then (apply_callbacks w (fre_event_bundle event) (r, CreateHandlers) s)
            (\<lambda>passthrough_events s1.
               if \<not> empty_bundle passthrough_events
               then and_then (call_events w (CreateEvents passthrough_events) s1)
                      (send_read_events w r)
               else (Inr (), s1))
      | ApiEventUpdate \<Rightarrow>
          and_then (apply_callbacks w (fre_event_bundle event) (r, UpdateHandlers) s)
            (\<lambda>passthrough_events s1.
               if \<not> empty_bundle passthrough_events
               then and_then (call_events w (UpdateEvents passthrough_events) s1)
                      (send_read_events w r)
               else (Inr (), s1))
      | ApiEventDelete \<Rightarrow>
          and_then (apply_callbacks w (fre_event_bundle event) (r, DeleteHandlers) s)
            (\<lambda>passthrough_events s1.
               if \<not> empty_bundle passthrough_events
               then call w (DeleteEvents passthrough_events) s1
               else (Inr (), s1))
      | ApiEventQuery \<Rightarrow>
          and_then (apply_callbacks w (fre_event_bundle event) (r, QueryHandlers) s)
            (\<lambda>passthrough_events s1.
               if \<not> empty_bundle passthrough_events
               then and_then (call_events w (FetchEvents passthrough_events) s1)
                      (send_read_events w r)
               else (Inr (), s1))
      | ApiEventRead \<Rightarrow> (Inl RuntimeError, s))"

subsection \<open>Fragment runners\<close>

text \<open>
  \<^verbatim>\<open>FragmentRunner.stop\<close>: the four tables are cleared, the read task is cancelled,
  the plugin is stopped.  The read task is taken to be alive until it is cancelled.
\<close>

definition stop_runner :: "world \<Rightarrow> ref \<Rightarrow> main_runner \<Rightarrow> unit res" where
  "stop_runner w r s =
     call w (PluginStop r)
       (s\<lparr>runner_objs := (runner_objs s)
            (r := (runner_objs s r)
               \<lparr>read_task_running := False,
                create_event_handlers := [], update_event_handlers := [],
                delete_event_handlers := [], query_event_handlers := []\<rparr>)\<rparr>)"

text \<open>
  \<^verbatim>\<open>_stop_fragment_runners\<close>.  Its loop creates the stop tasks and takes each runner
  out of \<^verbatim>\<open>self.fragment_runners\<close>; the tasks run when the loop is over, and
  \<^verbatim>\<open>gather\<close> raises when one of them raised, after all of them have run.
  When the loop itself raises, the tasks it had created are not followed further.
\<close>

fun unregister_runners :: "ref list \<Rightarrow> main_runner \<Rightarrow> unit res" where
  "unregister_runners [] s = (Inr (), s)"
| "unregister_runners (r # rs) s =
     (case map_of (fragment_runners s) (fr_name (runner_objs s r)) of
        None \<Rightarrow> (Inl KeyError, s)
      | Some xs \<Rightarrow>
          (case set_remove r xs of
             Inl e \<Rightarrow> (Inl e, s)
           | Inr xs' \<Rightarrow>
               unregister_runners rs
                 (s\<lparr>fragment_runners :=
                      AList.update (fr_name (runner_objs s r)) xs' (fragment_runners s)\<rparr>)))"

fun stop_all :: "world \<Rightarrow> ref list \<Rightarrow> bool \<Rightarrow> main_runner \<Rightarrow> unit res" where
  "stop_all w [] ok s = (if ok then (Inr (), s) else (Inl ExternalError, s))"
| "stop_all w (r # rs) ok s =
     (case stop_runner w r s of
        (Inl e, s') \<Rightarrow> stop_all w rs False s'
      | (Inr u, s') \<Rightarrow> stop_all w rs ok s')"

definition stop_fragment_runners :: "world \<Rightarrow> (int \<times> ref) list \<Rightarrow> main_runner \<Rightarrow> unit res" where
  "stop_fragment_runners w frm s =
     and_then (unregister_runners (map snd frm) s)
       (\<lambda>_. stop_all w (map snd frm) True)"

text \<open>
  \<^verbatim>\<open>_start_fragment_runner\<close>.  The plugin instance and the \<^verbatim>\<open>FragmentRunner\<close> that
  owns it share one reference.
\<close>

definition start_fragment_runner :: "world \<Rightarrow> string \<Rightarrow> string \<Rightarrow> main_runner \<Rightarrow> ref res" where
  "start_fragment_runner w name parameters s =
     (case map_of (fragment_executor_configs s) name of
        None \<Rightarrow> (Inl AssertionError, s)
      | Some config \<Rightarrow>
          (let r = next_ref s in
           and_then
             (call w (PluginStart r (cfg_plugin config) (cfg_settings config) parameters)
                (s\<lparr>next_ref := Suc r\<rparr>))
             (\<lambda>_ s1.
                (let s2 = s1\<lparr>runner_objs := (runner_objs s1)
                            (r := \<lparr>fr_name = name, read_task_running = True,
                                   create_event_handlers = [], update_event_handlers = [],
                                   delete_event_handlers = [], query_event_handlers = []\<rparr>)\<rparr>
                 in case map_of (fragment_runners s2) name of
                      None \<Rightarrow> (Inl KeyError, s2)
                    | Some xs \<Rightarrow>
                        (Inr r,
                         s2\<lparr>fragment_runners :=
                              AList.update name (set_add r xs) (fragment_runners s2)\<rparr>)))))"

subsection \<open>Runs\<close>

text \<open>\<^verbatim>\<open>MainRun.__init__\<close>: every fragment starts as \<^verbatim>\<open>SPAWNED\<close>.\<close>

definition new_run :: "int \<Rightarrow> (int \<times> ref) list \<Rightarrow> main_runner \<Rightarrow> ref \<times> main_runner" where
  "new_run rid frm s =
     (let r = next_ref s in
      (r, s\<lparr>next_ref := Suc r,
            run_objs := (run_objs s)
              (r := \<lparr>run_id = rid, fragment_runner_map = frm, cancelled = False,
                     fragment_run_state = map (\<lambda>kv. (fst kv, RunState_SPAWNED)) frm,
                     run_state_callback = None, output_artifact_callback = None\<rparr>)\<rparr>))"

text \<open>
  The sender tasks of \<^verbatim>\<open>_send_events_aggregate_updates\<close>: every runner is sent the
  bundle, and \<^verbatim>\<open>gather\<close> raises afterwards when a send raised.
\<close>

fun send_to_all :: "world \<Rightarrow> ref list \<Rightarrow> api_event_bundle \<Rightarrow> bool \<Rightarrow> main_runner \<Rightarrow> unit res" where
  "send_to_all w [] b ok s = (if ok then (Inr (), s) else (Inl ExternalError, s))"
| "send_to_all w (r # rs) b ok s =
     (case call w (PluginSendEvents r b ApiEventRead) s of
        (Inl e, s') \<Rightarrow> send_to_all w rs b False s'
      | (Inr u, s') \<Rightarrow> send_to_all w rs b ok s')"

text \<open>\<^verbatim>\<open>_send_events_aggregate_updates\<close>.\<close>

definition send_events_aggregate_updates ::
  "world \<Rightarrow> int \<Rightarrow> api_run_event_read \<Rightarrow> string \<Rightarrow> api_event \<Rightarrow> main_runner \<Rightarrow> unit res" where
  "send_events_aggregate_updates w rid event et update s =
     (case map_of (run_map s) rid of
        None \<Rightarrow> (Inl KeyError, s)
      | Some run \<Rightarrow>
          (let frm = fragment_runner_map (run_objs s run);
               hs = map (\<lambda>r. (r, UpdateHandlers)) (map snd frm);
               s1 = snd (new_callback hs et
                      (BundleUpdatesEventCallback
                         \<lparr>event_id = ev_id event, runners = length frm, received_updates = 0,
                          success = True, update_event = update\<rparr>) s)
           in send_to_all w (map snd frm) (add_event (ApiRunEventRead event) []) True s1))"

text \<open>The first loop of \<^verbatim>\<open>_start_run\<close>: one fragment runner per run fragment.\<close>

definition start_and_record ::
  "world \<Rightarrow> (int \<times> string) list \<Rightarrow> api_run_fragment \<Rightarrow> string \<Rightarrow> (int \<times> ref) list \<Rightarrow> main_runner
   \<Rightarrow> (int \<times> ref) list res" where
  "start_and_record w parameters_map rf tag frm s =
     (case map_of parameters_map (object_id (rf_fragment rf)) of
        None \<Rightarrow> (Inl KeyError, s)
      | Some parameters \<Rightarrow>
          and_then (start_fragment_runner w tag parameters s)
            (\<lambda>r s1. (Inr (AList.update (rf_id rf) r frm), s1)))"

fun start_fragments ::
  "world \<Rightarrow> (int \<times> string) list \<Rightarrow> api_run_fragment list \<Rightarrow> (int \<times> ref) list \<Rightarrow> main_runner
   \<Rightarrow> (int \<times> ref) list res" where
  "start_fragments w parameters_map [] frm s = (Inr frm, s)"
| "start_fragments w parameters_map (rf # rfs) frm s =
     (case fragment_executor_tag (rf_fragment rf) of
        None \<Rightarrow>
          (case available_fragment_executors s of
             [] \<Rightarrow> (Inl IndexError, s)
           | tag # _ \<Rightarrow>
               (case start_and_record w parameters_map rf tag frm s of
                  (Inl e, s') \<Rightarrow> (Inl e, s')
                | (Inr frm', s') \<Rightarrow> start_fragments w parameters_map rfs frm' s'))
      | Some tag \<Rightarrow>
          if map_of (fragment_executor_configs s) tag = None
          then (case stop_fragment_runners w frm s of
                  (Inl e, s') \<Rightarrow> (Inl e, s')
                | (Inr u, s') \<Rightarrow> (Inl RuntimeError, s'))
          else
            (case start_and_record w parameters_map rf tag frm s of
               (Inl e, s') \<Rightarrow> (Inl e, s')
             | (Inr frm', s') \<Rightarrow> start_fragments w parameters_map rfs frm' s'))"

text \<open>
  Modelled from the spec: \<^verbatim>\<open>Instantiation.get_fragment\<close> is not in the source file; it
  is taken to return the fragment with the given object id, and to raise when there is
  none.
\<close>

definition get_fragment :: "sb_instantiation \<Rightarrow> int \<Rightarrow> sb_fragment option" where
  "get_fragment sb_inst oid = find (\<lambda>f. sbf_id f = oid) (sbi_fragments sb_inst)"

text \<open>
  The second loop of \<^verbatim>\<open>_start_run\<close> and its \<^verbatim>\<open>gather\<close>: the start event of every
  fragment is built and sent.  A sender task is modelled as running where it is
  created; a send that raises is seen at the \<^verbatim>\<open>gather\<close>.
\<close>

fun dispatch_start_events ::
  "world \<Rightarrow> sb_instantiation \<Rightarrow> api_run_event_read \<Rightarrow> api_start_run \<Rightarrow> string option
   \<Rightarrow> (int \<times> ref) list \<Rightarrow> api_run_fragment list \<Rightarrow> bool \<Rightarrow> main_runner \<Rightarrow> unit res" where
  "dispatch_start_events w sb_inst event p inst_artifact frm [] ok s =
     (if ok then (Inr (), s) else (Inl ExternalError, s))"
| "dispatch_start_events w sb_inst event p inst_artifact frm (rf # rfs) ok s =
     (let p1 = (case inst_artifact of
                  None \<Rightarrow> p\<lparr>fragments := [rf]\<rparr>
                | Some a \<Rightarrow> p\<lparr>fragments := [rf], inst_input_artifact := Some (b64encode w a)\<rparr>)
      in case get_fragment sb_inst (object_id (rf_fragment rf)) of
           None \<Rightarrow> (Inl ExternalError, s)
         | Some fragment \<Rightarrow>
             (case (if sbf_input_artifact_paths fragment \<noteq> []
                    then (case call_bytes w
                                 (GetFragmentInputArtifactRaw (inst_id p)
                                    (fragment_id (rf_fragment rf))) s of
                            (Inl e, s') \<Rightarrow> (Inl e, s')
                          | (Inr a, s') \<Rightarrow>
                              (Inr (p1\<lparr>fragment_input_artifact := Some (b64encode w a)\<rparr>), s'))
                    else (Inr p1, s)) of
                (Inl e, s1) \<Rightarrow> (Inl e, s1)
              | (Inr p2, s1) \<Rightarrow>
                  (case map_of frm (rf_id rf) of
                     None \<Rightarrow> (Inl KeyError, s1)
                   | Some r \<Rightarrow>
                       (case call w
                               (PluginSendEvents r
                                  (add_event (ApiRunEventRead (event\<lparr>as_start_run := Some p2\<rparr>)) [])
                                  ApiEventRead) s1 of
                          (Inl e, s2) \<Rightarrow>
                            dispatch_start_events w sb_inst event p inst_artifact frm rfs False s2
                        | (Inr u, s2) \<Rightarrow>
                            dispatch_start_events w sb_inst event p inst_artifact frm rfs ok s2))))"

text \<open>The part of \<^verbatim>\<open>_start_run\<close> after the fragment runners are started: the run is
  registered, the three callbacks are installed, the start events are sent.\<close>

definition register_run ::
  "world \<Rightarrow> int \<Rightarrow> api_run_event_read \<Rightarrow> api_start_run \<Rightarrow> api_event \<Rightarrow> sb_instantiation
   \<Rightarrow> string option \<Rightarrow> (int \<times> ref) list \<Rightarrow> main_runner \<Rightarrow> unit res" where
  "register_run w rid event p update sb_inst inst_artifact frm s =
     (let run = fst (new_run rid frm s);
          s1 = snd (new_run rid frm s);
          s2 = s1\<lparr>run_map := AList.update rid run (run_map s1)\<rparr>;
          s3 = snd (new_callback (map (\<lambda>r. (r, UpdateHandlers)) (map snd frm))
                 ''ApiRunEventUpdate''
                 (BundleUpdatesEventCallback
                    \<lparr>event_id = ev_id event,
                     runners = length (fragment_runner_map (run_objs s2 run)),
                     received_updates = 0, success = True, update_event = update\<rparr>) s2);
          hs = map (\<lambda>r. (r, CreateHandlers)) (map snd frm);
          c4 = fst (new_callback hs ''ApiRunFragmentStateEventCreate''
                 (RunFragmentStateCallback run) s3);
          s4 = snd (new_callback hs ''ApiRunFragmentStateEventCreate''
                 (RunFragmentStateCallback run) s3);
          s5 = s4\<lparr>run_objs := (run_objs s4)
                 (run := (run_objs s4 run)\<lparr>run_state_callback := Some c4\<rparr>)\<rparr>;
          c6 = fst (new_callback hs ''ApiRunFragmentOutputArtifactEventCreate''
                 (RunFragmentOutputArtifactCallback (run_id (run_objs s5 run))) s5);
          s6 = snd (new_callback hs ''ApiRunFragmentOutputArtifactEventCreate''
                 (RunFragmentOutputArtifactCallback (run_id (run_objs s5 run))) s5);
          s7 = s6\<lparr>run_objs := (run_objs s6)
                 (run := (run_objs s6 run)\<lparr>output_artifact_callback := Some c6\<rparr>)\<rparr>
      in dispatch_start_events w sb_inst event p inst_artifact frm (fragments p) True s7)"

text \<open>\<^verbatim>\<open>_start_run\<close>.\<close>

definition start_run ::
  "world \<Rightarrow> int \<Rightarrow> api_run_event_read \<Rightarrow> api_start_run \<Rightarrow> api_event \<Rightarrow> main_runner \<Rightarrow> unit res" where
  "start_run w rid event p update s =
     (case fromJSON w (system_sb_json p) (simulation_sb_json p) (inst_sb_json p) of
        None \<Rightarrow> (Inl ExternalError, s)
      | Some sb_inst \<Rightarrow>
          (let parameters_map =
                 fold (\<lambda>f m. AList.update (sbf_id f) (sbf_parameters f) m) (sbi_fragments sb_inst) []
           in and_then
                (if sbi_input_artifact_paths sb_inst \<noteq> []
                 then and_then (call_bytes w (GetInstInputArtifactRaw (inst_id p)) s)
                        (\<lambda>a s1. (Inr (Some a), s1))
                 else (Inr None, s))
                (\<lambda>inst_artifact s1.
                   and_then (start_fragments w parameters_map (fragments p) [] s1)
                     (register_run w rid event p update sb_inst inst_artifact))))"

text \<open>The body of the loop of \<^verbatim>\<open>_handle_run_events\<close>, for one event; the result is
  the bundle of updates.\<close>

definition handle_run_event ::
  "world \<Rightarrow> api_run_event_read \<Rightarrow> api_event_bundle \<Rightarrow> main_runner \<Rightarrow> api_event_bundle res" where
  "handle_run_event w event updates s =
     (let update = ApiRunEventUpdate (ev_id event) (ident s) (ev_run_id event) None in
      case ev_run_id event of
        None \<Rightarrow> (Inl AssertionError, s)
      | Some rid \<Rightarrow>
          (case run_event_type event of
             KILL \<Rightarrow>
               if map_of (run_map s) rid = None
               then (Inr (add_event (set_event_status ApiEventStatus_CANCELLED update) updates), s)
               else and_then
                      (send_events_aggregate_updates w rid event ''ApiRunEventUpdate'' update s)
                      (\<lambda>_ s1. (Inr updates, s1))
           | SIMULATION_STATUS \<Rightarrow>
               if map_of (run_map s) rid = None
               then (Inr (add_event (set_event_status ApiEventStatus_CANCELLED update) updates), s)
               else and_then
                      (send_events_aggregate_updates w rid event ''ApiRunEventUpdate'' update s)
                      (\<lambda>_ s1. (Inr updates, s1))
           | START_RUN \<Rightarrow>
               if event_discriminator event \<noteq> ''ApiRunEventStartRunRead''
               then (Inl AssertionError, s)
               else
                 (case as_start_run event of
                    None \<Rightarrow> (Inl ValidationError, s)
                  | Some p \<Rightarrow>
                      if map_of (run_map s) rid \<noteq> None
                      then (Inr (add_event (set_event_status ApiEventStatus_CANCELLED update)
                                   updates), s)
                      else
                        (case start_run w rid event p update s of
                           (Inr u, s1) \<Rightarrow> (Inr updates, s1)
                         | (Inl e, s1) \<Rightarrow>
                             and_then (call w (UpdateRun rid RunState_ERROR []) s1)
                               (\<lambda>_ s2.
                                  (Inr (add_event (set_event_status ApiEventStatus_ERROR update)
                                          updates), s2))))))"

fun handle_run_event_list ::
  "world \<Rightarrow> api_run_event_read list \<Rightarrow> api_event_bundle \<Rightarrow> main_runner \<Rightarrow> api_event_bundle res" where
  "handle_run_event_list w [] updates s = (Inr updates, s)"
| "handle_run_event_list w (event # events) updates s =
     (case handle_run_event w event updates s of
        (Inl e, s') \<Rightarrow> (Inl e, s')
      | (Inr updates', s') \<Rightarrow> handle_run_event_list w events updates' s')"

text \<open>\<^verbatim>\<open>schemas.validate_list_type(events, schemas.ApiRunEventRead)\<close>.\<close>

fun validate_run_events :: "api_event list \<Rightarrow> api_run_event_read list option" where
  "validate_run_events [] = Some []"
| "validate_run_events (ApiRunEventRead e # es) = map_option ((#) e) (validate_run_events es)"
| "validate_run_events (_ # es) = None"

text \<open>\<^verbatim>\<open>_handle_run_events\<close>.\<close>

definition handle_run_events ::
  "world \<Rightarrow> api_event list \<Rightarrow> api_event_bundle \<Rightarrow> main_runner \<Rightarrow> api_event_bundle res" where
  "handle_run_events w events updates s =
     (case validate_run_events events of
        None \<Rightarrow> (Inl ValidationError, s)
      | Some es \<Rightarrow> handle_run_event_list w es updates s)"

fun validate_runner_events :: "api_event list \<Rightarrow> (int \<times> runner_event_type) list option" where
  "validate_runner_events [] = Some []"
| "validate_runner_events (ApiRunnerEventRead i t # es) =
     map_option ((#) (i, t)) (validate_runner_events es)"
| "validate_runner_events (_ # es) = None"

fun handle_runner_event_list ::
  "world \<Rightarrow> (int \<times> runner_event_type) list \<Rightarrow> api_event_bundle \<Rightarrow> main_runner
   \<Rightarrow> api_event_bundle res" where
  "handle_runner_event_list w [] updates s = (Inr updates, s)"
| "handle_runner_event_list w ((i, heartbeat) # events) updates s =
     (case call w SendHeartbeat s of
        (Inl e, s') \<Rightarrow> (Inl e, s')
      | (Inr u, s') \<Rightarrow>
          handle_runner_event_list w events
            (add_event (ApiRunnerEventUpdate i (ident s) (Some ApiEventStatus_COMPLETED)) updates) s')"

text \<open>\<^verbatim>\<open>_handle_runner_events\<close>.\<close>

definition handle_runner_events ::
  "world \<Rightarrow> api_event list \<Rightarrow> api_event_bundle \<Rightarrow> main_runner \<Rightarrow> api_event_bundle res" where
  "handle_runner_events w events updates s =
     (case validate_runner_events events of
        None \<Rightarrow> (Inl ValidationError, s)
      | Some es \<Rightarrow> handle_runner_event_list w es updates s)"

subsection \<open>The event pump\<close>

text \<open>The inner loop of the sweep breaks at the first fragment state below
  \<^verbatim>\<open>COMPLETED\<close>.\<close>

definition has_unfinished_fragment :: "main_run \<Rightarrow> bool" where
  "has_unfinished_fragment run =
     list_ex (\<lambda>fragment_state. run_state_less fragment_state RunState_COMPLETED)
       (map snd (fragment_run_state run))"

definition remove_optional_callback :: "ref option \<Rightarrow> main_runner \<Rightarrow> unit res" where
  "remove_optional_callback c s = (case c of None \<Rightarrow> (Inr (), s) | Some c' \<Rightarrow> remove_callback c' s)"

text \<open>The \<^verbatim>\<open>else\<close> branch of the sweep: the run is torn down.\<close>

definition teardown_run :: "world \<Rightarrow> int \<Rightarrow> ref \<Rightarrow> main_runner \<Rightarrow> unit res" where
  "teardown_run w rid run s =
     and_then (remove_optional_callback (run_state_callback (run_objs s run)) s)
       (\<lambda>_ s1.
          and_then (remove_optional_callback (output_artifact_callback (run_objs s1 run)) s1)
            (\<lambda>_ s2.
               and_then (stop_fragment_runners w (fragment_runner_map (run_objs s2 run)) s2)
                 (\<lambda>_ s3.
                    if map_of (run_map s3) rid = None then (Inl KeyError, s3)
                    else (Inr (), s3\<lparr>run_map := AList.delete rid (run_map s3)\<rparr>))))"

definition sweep_run :: "world \<Rightarrow> int \<Rightarrow> main_runner \<Rightarrow> unit res" where
  "sweep_run w rid s =
     (case map_of (run_map s) rid of
        None \<Rightarrow> (Inl KeyError, s)
      | Some run \<Rightarrow>
          if has_unfinished_fragment (run_objs s run) then (Inr (), s)
          else teardown_run w rid run s)"

fun sweep_runs :: "world \<Rightarrow> int list \<Rightarrow> main_runner \<Rightarrow> unit res" where
  "sweep_runs w [] s = (Inr (), s)"
| "sweep_runs w (rid # rids) s =
     (case sweep_run w rid s of
        (Inl e, s') \<Rightarrow> (Inl e, s')
      | (Inr u, s') \<Rightarrow> sweep_runs w rids s')"

text \<open>The loop \<^verbatim>\<open>for run_id in list(self._run_map.keys())\<close> of \<^verbatim>\<open>_handel_events\<close>.\<close>

definition sweep :: "world \<Rightarrow> main_runner \<Rightarrow> unit res" where
  "sweep w s = sweep_runs w (map fst (run_map s)) s"

text \<open>The three queries of a pump tick; \<^verbatim>\<open>utils_base.enum_subs\<close> gives the run event
  types other than \<^verbatim>\<open>START_RUN\<close>.\<close>

definition event_query_bundle :: "int \<Rightarrow> api_event_bundle" where
  "event_query_bundle i =
     add_event (ApiEventQueryOf ''ApiRunEventStartRunQuery'' [i] [ApiEventStatus_PENDING] [])
       (add_event
          (ApiEventQueryOf ''ApiRunEventQuery'' [i] [ApiEventStatus_PENDING]
             [KILL, SIMULATION_STATUS])
          (add_event (ApiEventQueryOf ''ApiRunnerEventQuery'' [i] [ApiEventStatus_PENDING] []) []))"

fun dispatch_fetched ::
  "world \<Rightarrow> api_event_bundle \<Rightarrow> api_event_bundle \<Rightarrow> main_runner \<Rightarrow> api_event_bundle res" where
  "dispatch_fetched w [] updates s = (Inr updates, s)"
| "dispatch_fetched w ((key, events) # items) updates s =
     (if key = ''ApiRunnerEventRead''
      then (case handle_runner_events w events updates s of
              (Inl e, s') \<Rightarrow> (Inl e, s')
            | (Inr updates', s') \<Rightarrow> dispatch_fetched w items updates' s')
      else if key = ''ApiRunEventStartRunRead'' \<or> key = ''ApiRunEventRead''
      then (case handle_run_events w events updates s of
              (Inl e, s') \<Rightarrow> (Inl e, s')
            | (Inr updates', s') \<Rightarrow> dispatch_fetched w items updates' s')
      else dispatch_fetched w items updates s)"

text \<open>One iteration of the loop of \<^verbatim>\<open>_handel_events\<close>, without the final sleep.\<close>

definition handel_events_tick :: "world \<Rightarrow> main_runner \<Rightarrow> unit res" where
  "handel_events_tick w s =
     and_then (sweep w s)
       (\<lambda>_ s1.
          and_then (call_events w (FetchEvents (event_query_bundle (ident s1))) s1)
            (\<lambda>fetched s2.
               case fetched of
                 None \<Rightarrow> (Inl AttributeError, s2)
               | Some fetched_events_bundle \<Rightarrow>
                   and_then (dispatch_fetched w fetched_events_bundle [] s2)
                     (\<lambda>update_events_bundle s3.
                        if \<not> empty_bundle update_events_bundle
                        then call w (UpdateEvents update_events_bundle) s3
                        else (Inr (), s3))))"

subsection \<open>Configuration\<close>





text \<open>\<^verbatim>\<open>MainRunner.__init__\<close>: nothing configured, no run, no object allocated.\<close>

definition init_main_runner :: "int \<Rightarrow> main_runner" where
  "init_main_runner i =
     \<lparr>ident = i, fragment_executor_configs = [], available_fragment_executors = [],
      fragment_runners = [], run_map = [],
      runner_objs = (\<lambda>_. \<lparr>fr_name = [], read_task_running = False,
                          create_event_handlers = [], update_event_handlers = [],
                          delete_event_handlers = [], query_event_handlers = []\<rparr>),
      run_objs = (\<lambda>_. \<lparr>run_id = 0, fragment_runner_map = [], cancelled = False,
                       fragment_run_state = [], run_state_callback = None,
                       output_artifact_callback = None\<rparr>),
      callback_objs = (\<lambda>_. \<lparr>handlers = [], event_type = [],
                            cb_class = RunFragmentOutputArtifactCallback 0\<rparr>),
      next_ref = 0, trace = []\<rparr>"

subsection \<open>Registered callbacks\<close>

text \<open>
  A callback is registered when it is where \<^verbatim>\<open>EventCallback.__init__\<close> put it: in the
  set under its event type in each of its handler tables, which are different tables.
\<close>

definition registered :: "main_runner \<Rightarrow> ref \<Rightarrow> bool" where
  "registered s c =
     (distinct (handlers (callback_objs s c)) \<and>
      (\<forall>h \<in> set (handlers (callback_objs s c)).
         \<exists>cs. map_of (get_table s h) (event_type (callback_objs s c)) = Some cs \<and> c \<in> set cs))"

text \<open>A callback called with one event after the other, as the router does when the
  events arrive; the first exception ends the sequence.\<close>

fun callback_seq :: "world \<Rightarrow> ref \<Rightarrow> api_event list \<Rightarrow> main_runner \<Rightarrow> unit res" where
  "callback_seq w c [] s = (Inr (), s)"
| "callback_seq w c (event # events) s =
     (case callback w c event s of
        (Inl e, s') \<Rightarrow> (Inl e, s')
      | (Inr matched, s') \<Rightarrow> callback_seq w c events s')"

subsection \<open>Runs as \<^verbatim>\<open>_start_run\<close> leaves them\<close>

text \<open>
  A run is consistent when its state callback and its artifact callback, two different
  objects, are registered, its fragment runners are different objects, and each of them
  is in the set of \<^verbatim>\<open>self.fragment_runners\<close> under its name.
\<close>

definition run_consistent :: "main_runner \<Rightarrow> ref \<Rightarrow> bool" where
  "run_consistent s run =
     ((\<forall>c. run_state_callback (run_objs s run) = Some c \<longrightarrow> registered s c) \<and>
      (\<forall>c. output_artifact_callback (run_objs s run) = Some c \<longrightarrow> registered s c) \<and>
      (\<forall>c. run_state_callback (run_objs s run) = Some c \<longrightarrow>
           output_artifact_callback (run_objs s run) \<noteq> Some c) \<and>
      distinct (map snd (fragment_runner_map (run_objs s run))) \<and>
      (\<forall>x \<in> set (map snd (fragment_runner_map (run_objs s run))).
         \<exists>xs. map_of (fragment_runners s) (fr_name (runner_objs s x)) = Some xs \<and> x \<in> set xs))"

text \<open>The runners of a run under construction: pairwise different objects that exist and
  are each in the table of their executor.\<close>

definition runners_ok :: "(int \<times> ref) list \<Rightarrow> main_runner \<Rightarrow> bool" where
  "runners_ok frm s =
     (distinct (map snd frm) \<and>
      (\<forall>x \<in> set (map snd frm).
         x < next_ref s \<and>
         (\<exists>xs. map_of (fragment_runners s) (fr_name (runner_objs s x)) = Some xs \<and> x \<in> set xs)))"


subsection \<open>The passthrough rule in the words of the specification\<close>

text \<open>
  The specification says that an executor event is forwarded to the backend iff either
  no callback matched or the matching callback's passthrough is true, and that the
  router stops at the first match.  \<open>first_match\<close> is the first callback, in
  iteration order, that returns true for the event in the state in which the event
  arrives.  \<open>spec_apply_callbacks\<close> builds the passthrough bundle by that rule: an event
  with no first match is forwarded and changes nothing; otherwise only the first match
  is called, and the event is forwarded iff the passthrough of that callback is true.
  An event type without an entry in the table has no callback at all.
\<close>

definition first_match :: "world \<Rightarrow> ref list \<Rightarrow> api_event \<Rightarrow> main_runner \<Rightarrow> ref option" where
  "first_match w cs event s = find (\<lambda>c. fst (callback w c event s) = Inr True) cs"

fun spec_apply_events ::
  "world \<Rightarrow> handler_ref \<Rightarrow> string \<Rightarrow> api_event list \<Rightarrow> api_event_bundle \<Rightarrow> main_runner
   \<Rightarrow> api_event_bundle \<times> main_runner" where
  "spec_apply_events w h et [] out s = (out, s)"
| "spec_apply_events w h et (event # events) out s =
     (case first_match w (case map_of (get_table s h) et of None \<Rightarrow> [] | Some cs \<Rightarrow> cs) event s of
        None \<Rightarrow> spec_apply_events w h et events (add_event event out) s
      | Some c \<Rightarrow>
          spec_apply_events w h et events
            (if passthrough (cb_class (callback_objs s c)) then add_event event out else out)
            (snd (callback w c event s)))"

fun spec_apply_items ::
  "world \<Rightarrow> handler_ref \<Rightarrow> api_event_bundle \<Rightarrow> api_event_bundle \<Rightarrow> main_runner
   \<Rightarrow> api_event_bundle \<times> main_runner" where
  "spec_apply_items w h [] out s = (out, s)"
| "spec_apply_items w h ((et, events) # items) out s =
     (case spec_apply_events w h et events out s of
        (out', s') \<Rightarrow> spec_apply_items w h items out' s')"

definition spec_apply_callbacks ::
  "world \<Rightarrow> api_event_bundle \<Rightarrow> handler_ref \<Rightarrow> main_runner \<Rightarrow> api_event_bundle \<times> main_runner" where
  "spec_apply_callbacks w event_bundle callbacks s = spec_apply_items w callbacks event_bundle [] s"

subsection \<open>Entries of the configuration file\<close>


subsection \<open>Example inputs\<close>

text \<open>A world in which every external call returns.\<close>

definition example_world :: world where
  "example_world =
     \<lparr>returns_ok = (\<lambda>_ _. True), returned_bytes = (\<lambda>_ _. ''raw''),
      returned_events = (\<lambda>_ _. None),
      fromJSON = (\<lambda>_ _ _. Some \<lparr>sbi_fragments =
          [\<lparr>sbf_id = 100, sbf_parameters = ''p100'', sbf_input_artifact_paths = []\<rparr>,
           \<lparr>sbf_id = 101, sbf_parameters = ''p101'', sbf_input_artifact_paths = []\<rparr>],
          sbi_input_artifact_paths = []\<rparr>),
      b64decode = (\<lambda>x. if x = ''aGVsbG8='' then Some ''hello'' else None),
      b64encode = (\<lambda>x. if x = ''hello'' then ''aGVsbG8='' else [])\<rparr>"


text \<open>Runner 1 with the executor \<^verbatim>\<open>local\<close> configured and no run.\<close>

definition example_configured :: main_runner where
  "example_configured =
     (init_main_runner 1)
       \<lparr>fragment_executor_configs :=
          [(''local'', \<lparr>cfg_name = ''local'', cfg_plugin = ''plugins.local'', cfg_settings = []\<rparr>)],
        available_fragment_executors := [''local''],
        fragment_runners := [(''local'', [])]\<rparr>"

text \<open>A start event for run 3 with the fragments 10 (no tag) and 11 (tag \<^verbatim>\<open>local\<close>).\<close>

definition example_start_event :: api_run_event_read where
  "example_start_event =
     \<lparr>ev_id = 7, ev_run_id = Some 3, run_event_type = START_RUN,
      event_discriminator = ''ApiRunEventStartRunRead'',
      as_start_run = Some
        \<lparr>system_sb_json = ''{}'', simulation_sb_json = ''{}'', inst_id = 5, inst_sb_json = ''{}'',
         fragments =
           [\<lparr>rf_id = 10,
             rf_fragment = \<lparr>fragment_id = 20, object_id = 100, fragment_executor_tag = None\<rparr>\<rparr>,
            \<lparr>rf_id = 11,
             rf_fragment =
               \<lparr>fragment_id = 21, object_id = 101, fragment_executor_tag = Some ''local''\<rparr>\<rparr>],
         inst_input_artifact = None, fragment_input_artifact = None\<rparr>\<rparr>"

definition example_update :: api_event where
  "example_update = ApiRunEventUpdate 7 1 (Some 3) None"

text \<open>
  The runner after it has started run 3 from that event: fragment runners 0 and 1, the
  run object 2, the aggregating callback 3, the state callback 4 and the artifact
  callback 5.  The external calls made so far are not listed.
\<close>

definition example_running :: main_runner where
  "example_running =
     example_configured
       \<lparr>fragment_runners := [(''local'', [0, 1])],
        run_map := [(3, 2)],
        runner_objs := (runner_objs example_configured)
          (0 := \<lparr>fr_name = ''local'', read_task_running = True,
                 create_event_handlers =
                   [(''ApiRunFragmentStateEventCreate'', [4]),
                    (''ApiRunFragmentOutputArtifactEventCreate'', [5])],
                 update_event_handlers = [(''ApiRunEventUpdate'', [3])],
                 delete_event_handlers = [], query_event_handlers = []\<rparr>,
           1 := \<lparr>fr_name = ''local'', read_task_running = True,
                 create_event_handlers =
                   [(''ApiRunFragmentStateEventCreate'', [4]),
                    (''ApiRunFragmentOutputArtifactEventCreate'', [5])],
                 update_event_handlers = [(''ApiRunEventUpdate'', [3])],
                 delete_event_handlers = [], query_event_handlers = []\<rparr>),
        run_objs := (run_objs example_configured)
          (2 := \<lparr>run_id = 3, fragment_runner_map = [(10, 0), (11, 1)], cancelled = False,
                 fragment_run_state = [(10, RunState_SPAWNED), (11, RunState_SPAWNED)],
                 run_state_callback = Some 4, output_artifact_callback = Some 5\<rparr>),
        callback_objs := (callback_objs example_configured)
          (3 := \<lparr>handlers = [(0, UpdateHandlers), (1, UpdateHandlers)],
                 event_type = ''ApiRunEventUpdate'',
                 cb_class = BundleUpdatesEventCallback
                   \<lparr>event_id = 7, runners = 2, received_updates = 0, success = True,
                    update_event = example_update\<rparr>\<rparr>,
           4 := \<lparr>handlers = [(0, CreateHandlers), (1, CreateHandlers)],
                 event_type = ''ApiRunFragmentStateEventCreate'',
                 cb_class = RunFragmentStateCallback 2\<rparr>,
           5 := \<lparr>handlers = [(0, CreateHandlers), (1, CreateHandlers)],
                 event_type = ''ApiRunFragmentOutputArtifactEventCreate'',
                 cb_class = RunFragmentOutputArtifactCallback 3\<rparr>),
        next_ref := 6\<rparr>"

text \<open>The same, after the aggregating callback has received one update.\<close>

definition example_one_received :: main_runner where
  "example_one_received =
     set_callback_class 3
       (BundleUpdatesEventCallback
          \<lparr>event_id = 7, runners = 2, received_updates = 1, success = True,
           update_event = example_update\<rparr>) example_running"

text \<open>A \<^verbatim>\<open>KILL\<close> event for run 3, and one for run 999.\<close>

definition example_kill_event :: api_run_event_read where
  "example_kill_event =
     \<lparr>ev_id = 8, ev_run_id = Some 3, run_event_type = KILL,
      event_discriminator = ''ApiRunEventRead'', as_start_run = None\<rparr>"

definition example_kill_unknown :: api_run_event_read where
  "example_kill_unknown = example_kill_event\<lparr>ev_run_id := Some 999\<rparr>"

text \<open>Events of an executor: fragment 10 of run 3 is running, and an output artifact
  of it (\<^verbatim>\<open>hello\<close>, base64-encoded) named \<^verbatim>\<open>out.bin\<close>.\<close>

definition example_state_event :: api_event where
  "example_state_event = ApiRunFragmentStateEventCreate 3 10 RunState_RUNNING"

definition example_artifact_event :: api_event where
  "example_artifact_event =
     ApiRunFragmentOutputArtifactEventCreate 3 10 ''aGVsbG8='' ''out.bin''"

definition example_create_bundle :: api_event_bundle where
  "example_create_bundle =
     [(''ApiRunFragmentStateEventCreate'', [example_state_event]),
      (''ApiRunFragmentOutputArtifactEventCreate'', [example_artifact_event])]"

text \<open>
  A world in which the instantiation has one fragment that declares an input artifact,
  and the backend call that fetches the input artifact of a fragment raises; and a
  start event for run 3 with that one fragment.
\<close>

definition example_fetch_fails :: world where
  "example_fetch_fails =
     example_world
       \<lparr>returns_ok := (\<lambda>_ a. case a of GetFragmentInputArtifactRaw _ _ \<Rightarrow> False | _ \<Rightarrow> True),
        fromJSON := (\<lambda>_ _ _. Some \<lparr>sbi_fragments =
          [\<lparr>sbf_id = 100, sbf_parameters = ''p100'', sbf_input_artifact_paths = [''in.tar'']\<rparr>],
          sbi_input_artifact_paths = []\<rparr>)\<rparr>"

definition example_single_start :: api_start_run where
  "example_single_start =
        \<lparr>system_sb_json = ''{}'', simulation_sb_json = ''{}'', inst_id = 5, inst_sb_json = ''{}'',
         fragments =
           [\<lparr>rf_id = 10,
             rf_fragment = \<lparr>fragment_id = 20, object_id = 100, fragment_executor_tag = None\<rparr>\<rparr>],
         inst_input_artifact = None, fragment_input_artifact = None\<rparr>"

definition example_single_start_event :: api_run_event_read where
  "example_single_start_event =
     \<lparr>ev_id = 7, ev_run_id = Some 3, run_event_type = START_RUN,
      event_discriminator = ''ApiRunEventStartRunRead'',
      as_start_run = Some example_single_start\<rparr>"


section \<open>Properties\<close>

subsection \<open>Basic facts\<close>

lemma and_then_simps [simp]:
  "and_then (Inr x, s) f = f x s"
  "and_then (Inl e, s) f = (Inl e, s)"
  by (simp_all add: and_then_def)

lemma get_table_put_table:
  "get_table (put_table h t s) h' = (if h' = h then t else get_table s h')"
  by (cases h, cases h')
     (auto simp: get_table_def put_table_def table_of_def with_table_def split: handler_kind.splits)

lemma put_table_frame [simp]:
  "trace (put_table h t s) = trace s"
  "callback_objs (put_table h t s) = callback_objs s"
  "run_objs (put_table h t s) = run_objs s"
  "run_map (put_table h t s) = run_map s"
  "next_ref (put_table h t s) = next_ref s"
  "fragment_runners (put_table h t s) = fragment_runners s"
  "fragment_executor_configs (put_table h t s) = fragment_executor_configs s"
  "available_fragment_executors (put_table h t s) = available_fragment_executors s"
  "ident (put_table h t s) = ident s"
  by (simp_all add: put_table_def)

lemma remove_from_frame:
  "remove_from c et hs s = (r, s') \<Longrightarrow>
     trace s' = trace s \<and> callback_objs s' = callback_objs s \<and> run_objs s' = run_objs s \<and>
     run_map s' = run_map s \<and> next_ref s' = next_ref s \<and> fragment_runners s' = fragment_runners s"
  by (induction hs arbitrary: s) (auto split: option.splits sum.splits)

lemma remove_from_other:
  "remove_from c et hs s = (r, s') \<Longrightarrow> h \<notin> set hs \<Longrightarrow> get_table s' h = get_table s h"
  by (induction hs arbitrary: s) (auto simp: get_table_put_table split: option.splits sum.splits)

lemma remove_from_ok:
  "distinct hs \<Longrightarrow>
   \<forall>h \<in> set hs. \<exists>cs. map_of (get_table s h) et = Some cs \<and> c \<in> set cs \<Longrightarrow>
   \<exists>s'. remove_from c et hs s = (Inr (), s') \<and>
        (\<forall>h \<in> set hs. \<exists>cs. map_of (get_table s' h) et = Some cs \<and> c \<notin> set cs)"
proof (induction hs arbitrary: s)
  case Nil
  then show ?case by simp
next
  case (Cons h hs)
  from Cons.prems obtain cs where cs: "map_of (get_table s h) et = Some cs" "c \<in> set cs"
    by auto
  define s1 where "s1 = put_table h (AList.update et (removeAll c cs) (get_table s h)) s"
  have step: "remove_from c et (h # hs) s = remove_from c et hs s1"
    using cs by (simp add: set_remove_def s1_def)
  have "\<forall>h' \<in> set hs. \<exists>cs. map_of (get_table s1 h') et = Some cs \<and> c \<in> set cs"
    using Cons.prems by (auto simp: s1_def get_table_put_table)
  with Cons.IH [of s1] Cons.prems obtain s' where
    s': "remove_from c et hs s1 = (Inr (), s')"
        "\<forall>h' \<in> set hs. \<exists>cs. map_of (get_table s' h') et = Some cs \<and> c \<notin> set cs"
    by auto
  have "h \<notin> set hs" using Cons.prems by simp
  with s'(1) have "get_table s' h = get_table s1 h" by (rule remove_from_other)
  then have "map_of (get_table s' h) et = Some (removeAll c cs)"
    by (simp add: s1_def get_table_put_table update_conv')
  with s' step show ?case by auto
qed

lemma remove_from_absent:
  "hs \<noteq> [] \<Longrightarrow>
   \<forall>h \<in> set hs. \<exists>cs. map_of (get_table s h) et = Some cs \<and> c \<notin> set cs \<Longrightarrow>
   remove_from c et hs s = (Inl KeyError, s)"
  by (cases hs) (auto simp: set_remove_def)

lemma get_table_cong: "runner_objs s' = runner_objs s \<Longrightarrow> get_table s' h = get_table s h"
  by (simp add: get_table_def)

lemma remove_callback_ok:
  assumes "registered s c"
  shows "\<exists>s'. remove_callback c s = (Inr (), s') \<and>
          trace s' = trace s \<and> callback_objs s' = callback_objs s \<and>
          (\<forall>h \<in> set (handlers (callback_objs s c)).
             \<exists>cs. map_of (get_table s' h) (event_type (callback_objs s c)) = Some cs \<and> c \<notin> set cs)"
proof -
  from assms remove_from_ok [of "handlers (callback_objs s c)" s "event_type (callback_objs s c)" c]
  obtain s' where s': "remove_callback c s = (Inr (), s')"
     "\<forall>h \<in> set (handlers (callback_objs s c)).
             \<exists>cs. map_of (get_table s' h) (event_type (callback_objs s c)) = Some cs \<and> c \<notin> set cs"
    by (auto simp: registered_def remove_callback_def)
  from s'(1) have "trace s' = trace s \<and> callback_objs s' = callback_objs s"
    using remove_from_frame unfolding remove_callback_def by blast
  with s' show ?thesis by blast
qed

lemma set_callback_class_frame [simp]:
  "trace (set_callback_class c cls s) = trace s"
  "runner_objs (set_callback_class c cls s) = runner_objs s"
  "run_objs (set_callback_class c cls s) = run_objs s"
  "run_map (set_callback_class c cls s) = run_map s"
  "handlers (callback_objs (set_callback_class c cls s) c') = handlers (callback_objs s c')"
  "event_type (callback_objs (set_callback_class c cls s) c') = event_type (callback_objs s c')"
  "cb_class (callback_objs (set_callback_class c cls s) c) = cls"
  by (simp_all add: set_callback_class_def)

lemma registered_cong:
  "runner_objs s' = runner_objs s \<Longrightarrow>
   handlers (callback_objs s' c) = handlers (callback_objs s c) \<Longrightarrow>
   event_type (callback_objs s' c) = event_type (callback_objs s c) \<Longrightarrow>
   registered s' c = registered s c"
  by (simp add: registered_def get_table_def)

lemma bundle_callback_mismatch:
  "cb_class (callback_objs s c) = BundleUpdatesEventCallback b \<Longrightarrow>
   id_attr event = Some i \<Longrightarrow> i \<noteq> event_id b \<Longrightarrow>
   callback w c event s = (Inr False, s)"
  by (simp add: callback_def bundle_updates_callback_def)

lemma bundle_callback_exhausted:
  "cb_class (callback_objs s c) = BundleUpdatesEventCallback b \<Longrightarrow>
   id_attr event = Some (event_id b) \<Longrightarrow> \<not> received_updates b < runners b \<Longrightarrow>
   callback w c event s = (Inl AssertionError, s)"
  by (simp add: callback_def bundle_updates_callback_def)

lemma bundle_callback_nonfinal:
  "cb_class (callback_objs s c) = BundleUpdatesEventCallback b \<Longrightarrow>
   id_attr event = Some (event_id b) \<Longrightarrow> event_status_attr event = Some st \<Longrightarrow>
   Suc (received_updates b) < runners b \<Longrightarrow>
   callback w c event s =
     (Inr True,
      set_callback_class c
        (BundleUpdatesEventCallback
           (b\<lparr>received_updates := Suc (received_updates b),
              success := success b \<and> st = Some ApiEventStatus_COMPLETED\<rparr>)) s)"
  by (auto simp: callback_def bundle_updates_callback_def Let_def)

lemma bundle_callback_final:
  assumes cls: "cb_class (callback_objs s c) = BundleUpdatesEventCallback b"
    and reg: "registered s c"
    and ev: "id_attr event = Some (event_id b)" "event_status_attr event = Some st"
    and last: "Suc (received_updates b) = runners b"
    and ok: "\<forall>bundle. returns_ok w (trace s) (UpdateEvents bundle)"
    and b3: "b3 = b\<lparr>received_updates := Suc (received_updates b),
                   success := success b \<and> st = Some ApiEventStatus_COMPLETED,
                   update_event :=
                     set_event_status
                       (if success b \<and> st = Some ApiEventStatus_COMPLETED
                        then ApiEventStatus_COMPLETED else ApiEventStatus_ERROR)
                       (update_event b)\<rparr>"
  shows "\<exists>s'. callback w c event s = (Inr True, s') \<and>
           cb_class (callback_objs s' c) = BundleUpdatesEventCallback b3 \<and>
           trace s' = trace s @ [UpdateEvents (add_event (update_event b3) [])] \<and>
           (\<forall>h \<in> set (handlers (callback_objs s c)).
              \<exists>cs. map_of (get_table s' h) (event_type (callback_objs s c)) = Some cs \<and> c \<notin> set cs)"
proof -
  define s3 where "s3 = set_callback_class c (BundleUpdatesEventCallback b3) s"
  define s4 where "s4 = s3\<lparr>trace := trace s3 @ [UpdateEvents (add_event (update_event b3) [])]\<rparr>"
  have unfold: "callback w c event s = and_then (remove_callback c s4) (\<lambda>_ s5. (Inr True, s5))"
    using cls ev last ok
    by (simp add: callback_def bundle_updates_callback_def call_def s4_def s3_def b3 Let_def)
  have "registered s4 c = registered s c"
    by (rule registered_cong) (simp_all add: s4_def s3_def)
  with reg have "registered s4 c" by simp
  from remove_callback_ok [OF this] obtain s' where s':
    "remove_callback c s4 = (Inr (), s')" "trace s' = trace s4" "callback_objs s' = callback_objs s4"
    "\<forall>h \<in> set (handlers (callback_objs s4 c)).
       \<exists>cs. map_of (get_table s' h) (event_type (callback_objs s4 c)) = Some cs \<and> c \<notin> set cs"
    by blast
  have "callback w c event s = (Inr True, s')" using unfold s'(1) by simp
  moreover have "cb_class (callback_objs s' c) = BundleUpdatesEventCallback b3"
    using s'(3) by (simp add: s4_def s3_def)
  moreover have "trace s' = trace s @ [UpdateEvents (add_event (update_event b3) [])]"
    using s'(2) by (simp add: s4_def s3_def)
  moreover have "\<forall>h \<in> set (handlers (callback_objs s c)).
              \<exists>cs. map_of (get_table s' h) (event_type (callback_objs s c)) = Some cs \<and> c \<notin> set cs"
    using s'(4) by (simp add: s4_def s3_def)
  ultimately show ?thesis by blast
qed

lemma callback_seq_bundle:
  "cb_class (callback_objs s c) = BundleUpdatesEventCallback b \<Longrightarrow>
   registered s c \<Longrightarrow>
   received_updates b + length events = runners b \<Longrightarrow>
   events \<noteq> [] \<Longrightarrow>
   \<forall>ev \<in> set events. id_attr ev = Some (event_id b) \<and> event_status_attr ev \<noteq> None \<Longrightarrow>
   \<forall>bundle. returns_ok w (trace s) (UpdateEvents bundle) \<Longrightarrow>
   \<exists>s' b'. callback_seq w c events s = (Inr (), s') \<and>
      cb_class (callback_objs s' c) = BundleUpdatesEventCallback b' \<and>
      update_event b' =
        set_event_status
          (if success b \<and> (\<forall>ev \<in> set events. event_status_attr ev = Some (Some ApiEventStatus_COMPLETED))
           then ApiEventStatus_COMPLETED else ApiEventStatus_ERROR)
          (update_event b) \<and>
      trace s' = trace s @ [UpdateEvents (add_event (update_event b') [])]"
proof (induction events arbitrary: s b)
  case Nil
  then show ?case by simp
next
  case (Cons ev evs)
  from Cons.prems(5) obtain st where st: "event_status_attr ev = Some st" by auto
  from Cons.prems(5) have idv: "id_attr ev = Some (event_id b)" by simp
  show ?case
  proof (cases evs)
    case Nil
    define b3 where "b3 = b\<lparr>received_updates := Suc (received_updates b),
                   success := success b \<and> st = Some ApiEventStatus_COMPLETED,
                   update_event :=
                     set_event_status
                       (if success b \<and> st = Some ApiEventStatus_COMPLETED
                        then ApiEventStatus_COMPLETED else ApiEventStatus_ERROR)
                       (update_event b)\<rparr>"
    have last: "Suc (received_updates b) = runners b" using Cons.prems(3) Nil by simp
    from bundle_callback_final [OF Cons.prems(1) Cons.prems(2) idv st last Cons.prems(6) b3_def]
    obtain s' where s': "callback w c ev s = (Inr True, s')"
      "cb_class (callback_objs s' c) = BundleUpdatesEventCallback b3"
      "trace s' = trace s @ [UpdateEvents (add_event (update_event b3) [])]"
      by blast
    have "update_event b3 =
        set_event_status
          (if success b \<and> (\<forall>e \<in> set (ev # evs). event_status_attr e = Some (Some ApiEventStatus_COMPLETED))
           then ApiEventStatus_COMPLETED else ApiEventStatus_ERROR)
          (update_event b)"
      using Nil st by (simp add: b3_def)
    with s' Nil show ?thesis by auto
  next
    case (Cons ev' evs')
    define b2 where "b2 = b\<lparr>received_updates := Suc (received_updates b),
              success := success b \<and> st = Some ApiEventStatus_COMPLETED\<rparr>"
    define s1 where "s1 = set_callback_class c (BundleUpdatesEventCallback b2) s"
    have less: "Suc (received_updates b) < runners b" using Cons.prems(3) Cons by simp
    have step: "callback w c ev s = (Inr True, s1)"
      using bundle_callback_nonfinal [OF Cons.prems(1) idv st less] by (simp add: s1_def b2_def)
    have cls1: "cb_class (callback_objs s1 c) = BundleUpdatesEventCallback b2"
      by (simp add: s1_def)
    have "registered s1 c = registered s c"
      by (rule registered_cong) (simp_all add: s1_def)
    with Cons.prems(2) have reg1: "registered s1 c" by simp
    have cnt: "received_updates b2 + length evs = runners b2"
      using Cons.prems(3) by (simp add: b2_def)
    have ne: "evs \<noteq> []" using Cons by simp
    have evs: "\<forall>e \<in> set evs. id_attr e = Some (event_id b2) \<and> event_status_attr e \<noteq> None"
      using Cons.prems(5) by (simp add: b2_def)
    have ok1: "\<forall>bundle. returns_ok w (trace s1) (UpdateEvents bundle)"
      using Cons.prems(6) by (simp add: s1_def)
    from Cons.IH [OF cls1 reg1 cnt ne evs ok1] obtain s' b' where r:
      "callback_seq w c evs s1 = (Inr (), s')"
      "cb_class (callback_objs s' c) = BundleUpdatesEventCallback b'"
      "update_event b' =
        set_event_status
          (if success b2 \<and> (\<forall>e \<in> set evs. event_status_attr e = Some (Some ApiEventStatus_COMPLETED))
           then ApiEventStatus_COMPLETED else ApiEventStatus_ERROR)
          (update_event b2)"
      "trace s' = trace s1 @ [UpdateEvents (add_event (update_event b') [])]"
      by blast
    have "callback_seq w c (ev # evs) s = (Inr (), s')" using step r(1) by simp
    moreover have "update_event b' =
        set_event_status
          (if success b \<and> (\<forall>e \<in> set (ev # evs). event_status_attr e = Some (Some ApiEventStatus_COMPLETED))
           then ApiEventStatus_COMPLETED else ApiEventStatus_ERROR)
          (update_event b)"
      using r(3) st by (auto simp: b2_def)
    moreover have "trace s' = trace s @ [UpdateEvents (add_event (update_event b') [])]"
      using r(4) by (simp add: s1_def)
    ultimately show ?thesis using r(2) by blast
  qed
qed

lemma event_status_attr_set:
  "event_status_attr u \<noteq> None \<Longrightarrow> event_status_attr (set_event_status st u) = Some (Some st)"
  by (cases u) simp_all

lemma register_callback_frame [simp]:
  "trace (register_callback c et hs s) = trace s"
  "callback_objs (register_callback c et hs s) = callback_objs s"
  "run_objs (register_callback c et hs s) = run_objs s"
  "run_map (register_callback c et hs s) = run_map s"
  "next_ref (register_callback c et hs s) = next_ref s"
  "fragment_runners (register_callback c et hs s) = fragment_runners s"
  "fragment_executor_configs (register_callback c et hs s) = fragment_executor_configs s"
  "available_fragment_executors (register_callback c et hs s) = available_fragment_executors s"
  "ident (register_callback c et hs s) = ident s"
  by (induction hs arbitrary: s; simp)+

lemma register_callback_keeps:
  "\<exists>cs. map_of (get_table s h) et = Some cs \<and> c \<in> set cs \<Longrightarrow>
   \<exists>cs. map_of (get_table (register_callback c et hs s) h) et = Some cs \<and> c \<in> set cs"
proof (induction hs arbitrary: s)
  case Nil
  then show ?case by simp
next
  case (Cons h' hs)
  show ?case
    unfolding register_callback.simps
    by (rule Cons.IH)
       (use Cons.prems in \<open>auto simp: get_table_put_table update_conv' set_add_def split: option.splits\<close>)
qed

lemma register_callback_registers:
  "\<forall>h \<in> set hs. \<exists>cs. map_of (get_table (register_callback c et hs s) h) et = Some cs \<and> c \<in> set cs"
proof (induction hs arbitrary: s)
  case Nil
  then show ?case by simp
next
  case (Cons h hs)
  define s1 where "s1 = put_table h
          (case map_of (get_table s h) et of
             None \<Rightarrow> AList.update et [c] (get_table s h)
           | Some cs \<Rightarrow> AList.update et (set_add c cs) (get_table s h)) s"
  have "\<exists>cs. map_of (get_table s1 h) et = Some cs \<and> c \<in> set cs"
    by (auto simp: s1_def get_table_put_table update_conv' set_add_def split: option.splits)
  then have "\<exists>cs. map_of (get_table (register_callback c et hs s1) h) et = Some cs \<and> c \<in> set cs"
    by (rule register_callback_keeps)
  moreover have "register_callback c et (h # hs) s = register_callback c et hs s1"
    by (simp add: s1_def)
  ultimately show ?case using Cons.IH [of s1] by auto
qed

lemma new_callback_facts:
  "callback_objs (snd (new_callback hs et cls s)) (next_ref s) =
     \<lparr>handlers = hs, event_type = et, cb_class = cls\<rparr>"
  "c \<noteq> next_ref s \<Longrightarrow> callback_objs (snd (new_callback hs et cls s)) c = callback_objs s c"
  "trace (snd (new_callback hs et cls s)) = trace s"
  "run_map (snd (new_callback hs et cls s)) = run_map s"
  "run_objs (snd (new_callback hs et cls s)) = run_objs s"
  "next_ref (snd (new_callback hs et cls s)) = Suc (next_ref s)"
  "fst (new_callback hs et cls s) = next_ref s"
  "\<forall>h \<in> set hs. \<exists>cs. map_of (get_table (snd (new_callback hs et cls s)) h) et = Some cs \<and>
      next_ref s \<in> set cs"
  by (simp_all add: new_callback_def Let_def register_callback_registers)

lemma send_to_all_trace:
  "trace (snd (send_to_all w rs b ok s)) = trace s @ map (\<lambda>x. PluginSendEvents x b ApiEventRead) rs"
  by (induction rs arbitrary: s ok) (auto simp: call_def)

lemma send_to_all_frame:
  "runner_objs (snd (send_to_all w rs b ok s)) = runner_objs s \<and>
   callback_objs (snd (send_to_all w rs b ok s)) = callback_objs s \<and>
   run_map (snd (send_to_all w rs b ok s)) = run_map s \<and>
   run_objs (snd (send_to_all w rs b ok s)) = run_objs s"
  by (induction rs arbitrary: s ok) (auto simp: call_def)

lemma send_to_all_ok:
  "\<forall>h x. returns_ok w h (PluginSendEvents x b ApiEventRead) \<Longrightarrow>
   fst (send_to_all w rs b True s) = Inr ()"
  by (induction rs arbitrary: s) (auto simp: call_def)

lemma send_to_all_result:
  "fst (send_to_all w rs b ok s) = Inr () \<or> fst (send_to_all w rs b ok s) = Inl ExternalError"
  by (induction rs arbitrary: s ok) (auto simp: call_def)

lemma send_events_aggregate_updates_facts:
  assumes "map_of (run_map s) rid = Some run"
    and "rs = map snd (fragment_runner_map (run_objs s run))"
    and "b = [(discriminator_of (ApiRunEventRead event), [ApiRunEventRead event])]"
    and "s' = snd (send_events_aggregate_updates w rid event et update s)"
  shows "callback_objs s' (next_ref s) =
           \<lparr>handlers = map (\<lambda>x. (x, UpdateHandlers)) rs, event_type = et,
            cb_class = BundleUpdatesEventCallback
              \<lparr>event_id = ev_id event, runners = length rs, received_updates = 0,
               success = True, update_event = update\<rparr>\<rparr>"
    and "\<forall>x \<in> set rs. \<exists>cs. map_of (get_table s' (x, UpdateHandlers)) et = Some cs \<and>
            next_ref s \<in> set cs"
    and "trace s' = trace s @ map (\<lambda>x. PluginSendEvents x b ApiEventRead) rs"
    and "run_map s' = run_map s"
    and "(\<forall>h x. returns_ok w h (PluginSendEvents x b ApiEventRead)) \<longrightarrow>
           fst (send_events_aggregate_updates w rid event et update s) = Inr ()"
proof -
  define cls where "cls = BundleUpdatesEventCallback
              \<lparr>event_id = ev_id event, runners = length rs, received_updates = 0,
               success = True, update_event = update\<rparr>"
  define hs where "hs = map (\<lambda>x. (x, UpdateHandlers)) rs"
  define s1 where "s1 = snd (new_callback hs et cls s)"
  have eq: "send_events_aggregate_updates w rid event et update s = send_to_all w rs b True s1"
    using assms(1-3)
    by (simp add: send_events_aggregate_updates_def Let_def s1_def hs_def cls_def add_event_def)
  have fr: "runner_objs s' = runner_objs s1" "callback_objs s' = callback_objs s1"
    "run_map s' = run_map s1"
    using send_to_all_frame [of w rs b True s1] by (simp_all add: assms(4) eq)
  show "callback_objs s' (next_ref s) =
           \<lparr>handlers = map (\<lambda>x. (x, UpdateHandlers)) rs, event_type = et,
            cb_class = BundleUpdatesEventCallback
              \<lparr>event_id = ev_id event, runners = length rs, received_updates = 0,
               success = True, update_event = update\<rparr>\<rparr>"
    using fr(2) by (simp add: s1_def new_callback_facts hs_def cls_def)
  have "\<forall>h \<in> set hs. \<exists>cs. map_of (get_table s1 h) et = Some cs \<and> next_ref s \<in> set cs"
    unfolding s1_def by (rule new_callback_facts)
  then show "\<forall>x \<in> set rs. \<exists>cs. map_of (get_table s' (x, UpdateHandlers)) et = Some cs \<and>
            next_ref s \<in> set cs"
    using get_table_cong [OF fr(1)] by (simp add: hs_def)
  show "trace s' = trace s @ map (\<lambda>x. PluginSendEvents x b ApiEventRead) rs"
    by (simp add: assms(4) eq send_to_all_trace s1_def new_callback_facts)
  show "run_map s' = run_map s" using fr(3) by (simp add: s1_def new_callback_facts)
  show "(\<forall>h x. returns_ok w h (PluginSendEvents x b ApiEventRead)) \<longrightarrow>
           fst (send_events_aggregate_updates w rid event et update s) = Inr ()"
    by (simp add: eq send_to_all_ok)
qed

lemma call_state: "call w a s = (r, s') \<Longrightarrow> s' = s\<lparr>trace := trace s @ [a]\<rparr>"
  by (auto simp: call_def split: if_splits)

lemma remove_callback_frame:
  "remove_callback c s = (r, s') \<Longrightarrow>
     trace s' = trace s \<and> callback_objs s' = callback_objs s \<and> run_objs s' = run_objs s \<and>
     run_map s' = run_map s"
  unfolding remove_callback_def using remove_from_frame by blast

lemma bundle_updates_callback_False:
  "bundle_updates_callback w c b event s = (Inr False, s') \<Longrightarrow> s' = s"
  by (auto simp: bundle_updates_callback_def Let_def and_then_def
           split: option.splits if_splits prod.splits sum.splits)

lemma callback_False_state: "callback w c event s = (Inr False, s') \<Longrightarrow> s' = s"
  by (auto simp: callback_def run_fragment_state_callback_def
        run_fragment_output_artifact_callback_def and_then_def
        dest: bundle_updates_callback_False
        split: callback_class.splits api_event.splits if_splits option.splits prod.splits sum.splits)

lemma bundle_updates_callback_objs:
  "bundle_updates_callback w c b event s = (r, s') \<Longrightarrow>
   callback_objs s' = callback_objs s \<or>
   (\<exists>b'. callback_objs s' =
      (callback_objs s)(c := (callback_objs s c)\<lparr>cb_class := BundleUpdatesEventCallback b'\<rparr>))"
  by (auto simp: bundle_updates_callback_def Let_def and_then_def set_callback_class_def
           dest!: call_state remove_callback_frame
           split: option.splits if_splits prod.splits sum.splits)

lemma passthrough_callback:
  assumes "callback w c event s = (r, s')"
  shows "passthrough (cb_class (callback_objs s' c')) = passthrough (cb_class (callback_objs s c'))"
proof -
  define k where "k = cb_class (callback_objs s c)"
  show ?thesis
  proof (cases k)
    case (BundleUpdatesEventCallback b)
    with assms have "bundle_updates_callback w c b event s = (r, s')"
      by (simp add: callback_def k_def)
    from bundle_updates_callback_objs [OF this] BundleUpdatesEventCallback show ?thesis
      by (auto simp: k_def split: if_splits)
  next
    case (RunFragmentStateCallback run)
    with assms show ?thesis
      by (auto simp: k_def callback_def run_fragment_state_callback_def
               split: api_event.splits if_splits)
  next
    case (RunFragmentOutputArtifactCallback rid)
    with assms show ?thesis
      by (auto simp: k_def callback_def run_fragment_output_artifact_callback_def and_then_def
               dest!: call_state
               split: api_event.splits if_splits option.splits prod.splits sum.splits)
  qed
qed

lemma run_callbacks_first_match:
  "run_callbacks w cs event s = (Inr fwd, s') \<Longrightarrow>
     (case first_match w cs event s of
        None \<Rightarrow> fwd \<and> s' = s
      | Some c \<Rightarrow>
          fwd = passthrough (cb_class (callback_objs s c)) \<and>
          callback w c event s = (Inr True, s'))"
proof (induction cs)
  case Nil
  then show ?case by (simp add: first_match_def)
next
  case (Cons c cs)
  obtain r s1 where r: "callback w c event s = (r, s1)" by fastforce
  show ?case
  proof (cases r)
    case (Inl e)
    with Cons.prems r show ?thesis by simp
  next
    case (Inr matched)
    show ?thesis
    proof (cases matched)
      case True
      with Cons.prems r Inr passthrough_callback [OF r, of c] show ?thesis
        by (auto simp: first_match_def)
    next
      case False
      from r Inr False have "callback w c event s = (Inr False, s1)" by simp
      then have "s1 = s" by (rule callback_False_state)
      with Cons.prems r Inr False have "run_callbacks w cs event s = (Inr fwd, s')" by simp
      from Cons.IH [OF this] r Inr False show ?thesis
        by (simp add: first_match_def)
    qed
  qed
qed

lemma apply_to_events_spec:
  "apply_to_events w h et events out s = (Inr out', s') \<Longrightarrow>
   spec_apply_events w h et events out s = (out', s')"
proof (induction events arbitrary: out s)
  case Nil
  then show ?case by simp
next
  case (Cons event events)
  from Cons.prems obtain cs where cs: "map_of (get_table s h) et = Some cs"
    by (auto split: option.splits)
  from Cons.prems cs obtain fwd s1 where
    rc: "run_callbacks w cs event s = (Inr fwd, s1)"
    and rest: "apply_to_events w h et events (if fwd then add_event event out else out) s1 = (Inr out', s')"
    by (auto split: prod.splits sum.splits)
  note fm = run_callbacks_first_match [OF rc]
  note ih = Cons.IH [OF rest]
  define m where "m = first_match w cs event s"
  show ?case
  proof (cases m)
    case None
    with fm ih cs show ?thesis by (simp add: m_def)
  next
    case (Some c)
    with fm ih cs show ?thesis by (simp add: m_def)
  qed
qed

lemma apply_to_events_absent:
  "map_of (get_table s h) et = None \<Longrightarrow>
   spec_apply_events w h et events out s = (add_events events out, s)"
  by (induction events arbitrary: out) (simp_all add: first_match_def)

lemma apply_to_items_spec:
  "apply_to_items w h items out s = (Inr out', s') \<Longrightarrow>
   spec_apply_items w h items out s = (out', s')"
proof (induction items arbitrary: out s)
  case Nil
  then show ?case by simp
next
  case (Cons item items)
  obtain et events where item: "item = (et, events)" by (cases item)
  define m where "m = map_of (get_table s h) et"
  show ?case
  proof (cases m)
    case None
    then have none: "map_of (get_table s h) et = None" by (simp add: m_def)
    with Cons.prems item have "apply_to_items w h items (add_events events out) s = (Inr out', s')"
      by simp
    from Cons.IH [OF this] none item show ?thesis
      by (simp add: apply_to_events_absent)
  next
    case (Some cs)
    then have "map_of (get_table s h) et = Some cs" by (simp add: m_def)
    with Cons.prems item obtain out1 s1 where
      ev: "apply_to_events w h et events out s = (Inr out1, s1)"
      and rest: "apply_to_items w h items out1 s1 = (Inr out', s')"
      by (auto split: prod.splits sum.splits)
    from apply_to_events_spec [OF ev] Cons.IH [OF rest] item show ?thesis by simp
  qed
qed








lemma dispatch_fetch_fails:
  "get_fragment sb_inst (object_id (rf_fragment rf)) = Some fragment \<Longrightarrow>
   sbf_input_artifact_paths fragment \<noteq> [] \<Longrightarrow>
   \<not> returns_ok w (trace s) (GetFragmentInputArtifactRaw (inst_id p) (fragment_id (rf_fragment rf))) \<Longrightarrow>
   dispatch_start_events w sb_inst event p ia frm (rf # rfs) ok s =
     (Inl ExternalError,
      s\<lparr>trace := trace s @
          [GetFragmentInputArtifactRaw (inst_id p) (fragment_id (rf_fragment rf))]\<rparr>)"
  by (simp add: call_bytes_def Let_def)

lemma register_run_fetch_fails:
  assumes "fragments p = rf # rfs"
    and "get_fragment sb_inst (object_id (rf_fragment rf)) = Some fragment"
    and "sbf_input_artifact_paths fragment \<noteq> []"
    and "\<forall>h. \<not> returns_ok w h
            (GetFragmentInputArtifactRaw (inst_id p) (fragment_id (rf_fragment rf)))"
  shows "\<exists>s'. register_run w rid event p update sb_inst ia frm s = (Inl ExternalError, s') \<and>
           run_map s' = AList.update rid (next_ref s) (run_map s) \<and>
           trace s' = trace s @
             [GetFragmentInputArtifactRaw (inst_id p) (fragment_id (rf_fragment rf))]"
  unfolding register_run_def Let_def assms(1)
  by (subst dispatch_fetch_fails [OF assms(2) assms(3)])
     (simp_all add: assms(4) new_callback_facts new_run_def Let_def)

lemma fr_name_put_table [simp]:
  "fr_name (runner_objs (put_table h t s) x) = fr_name (runner_objs s x)"
  "read_task_running (runner_objs (put_table h t s) x) = read_task_running (runner_objs s x)"
  by (cases h; auto simp: put_table_def with_table_def split: handler_kind.splits)+














lemma and_then_Inr:
  "and_then m f = (Inr y, s') \<longleftrightarrow> (\<exists>x s1. m = (Inr x, s1) \<and> f x s1 = (Inr y, s'))"
  by (cases m) (auto simp: and_then_def split: sum.splits)












subsection \<open>Facts about the examples\<close>

lemma example_running_callbacks:
  "callback_objs example_running 3 =
     \<lparr>handlers = [(0, UpdateHandlers), (1, UpdateHandlers)],
      event_type = ''ApiRunEventUpdate'',
      cb_class = BundleUpdatesEventCallback
        \<lparr>event_id = 7, runners = 2, received_updates = 0, success = True,
         update_event = example_update\<rparr>\<rparr>"
  "callback_objs example_running 4 =
     \<lparr>handlers = [(0, CreateHandlers), (1, CreateHandlers)],
      event_type = ''ApiRunFragmentStateEventCreate'',
      cb_class = RunFragmentStateCallback 2\<rparr>"
  "callback_objs example_running 5 =
     \<lparr>handlers = [(0, CreateHandlers), (1, CreateHandlers)],
      event_type = ''ApiRunFragmentOutputArtifactEventCreate'',
      cb_class = RunFragmentOutputArtifactCallback 3\<rparr>"
  by (simp_all add: example_running_def)

lemma example_running_tables:
  "get_table example_running (0, UpdateHandlers) = [(''ApiRunEventUpdate'', [3])]"
  "get_table example_running (Suc 0, UpdateHandlers) = [(''ApiRunEventUpdate'', [3])]"
  "get_table example_running (0, CreateHandlers) =
     [(''ApiRunFragmentStateEventCreate'', [4]), (''ApiRunFragmentOutputArtifactEventCreate'', [5])]"
  "get_table example_running (Suc 0, CreateHandlers) =
     [(''ApiRunFragmentStateEventCreate'', [4]), (''ApiRunFragmentOutputArtifactEventCreate'', [5])]"
  by (simp_all add: example_running_def get_table_def table_of_def)

lemma example_running_registered:
  "registered example_running 3" "registered example_running 4" "registered example_running 5"
  by (simp_all add: registered_def example_running_callbacks example_running_tables)

lemma example_one_received_registered: "registered example_one_received 3"
  using example_running_registered(1) registered_cong [of example_one_received example_running 3]
  by (simp add: example_one_received_def)

lemma example_running_fields:
  "run_map example_running = [(3, 2)]"
  "ident example_running = 1"
  "trace example_running = []"
  "next_ref example_running = 6"
  "fragment_runners example_running = [(''local'', [0, 1])]"
  "run_objs example_running 2 =
     \<lparr>run_id = 3, fragment_runner_map = [(10, 0), (11, 1)], cancelled = False,
      fragment_run_state = [(10, RunState_SPAWNED), (11, RunState_SPAWNED)],
      run_state_callback = Some 4, output_artifact_callback = Some 5\<rparr>"
  by (simp_all add: example_running_def example_configured_def init_main_runner_def)

lemma example_running_runners:
  "runner_objs example_running 0 =
     \<lparr>fr_name = ''local'', read_task_running = True,
      create_event_handlers =
        [(''ApiRunFragmentStateEventCreate'', [4]),
         (''ApiRunFragmentOutputArtifactEventCreate'', [5])],
      update_event_handlers = [(''ApiRunEventUpdate'', [3])],
      delete_event_handlers = [], query_event_handlers = []\<rparr>"
  "runner_objs example_running (Suc 0) =
     \<lparr>fr_name = ''local'', read_task_running = True,
      create_event_handlers =
        [(''ApiRunFragmentStateEventCreate'', [4]),
         (''ApiRunFragmentOutputArtifactEventCreate'', [5])],
      update_event_handlers = [(''ApiRunEventUpdate'', [3])],
      delete_event_handlers = [], query_event_handlers = []\<rparr>"
  by (simp_all add: example_running_def)

lemma example_apply_callbacks:
  "apply_callbacks example_world example_create_bundle (0, CreateHandlers) example_running =
     (Inr [(''ApiRunFragmentStateEventCreate'', [example_state_event])],
      example_running
        \<lparr>run_objs := (run_objs example_running)
           (2 := (run_objs example_running 2)
              \<lparr>fragment_run_state := [(10, RunState_RUNNING), (11, RunState_SPAWNED)]\<rparr>),
         trace := [SetRunFragmentOutputArtifactRaw 10 ''out.bin'' ''hello'']\<rparr>)"
  by (simp add: apply_callbacks_def example_create_bundle_def get_table_def table_of_def
        example_running_runners example_running_callbacks example_running_fields
        callback_def run_fragment_state_callback_def run_fragment_output_artifact_callback_def
        example_state_event_def example_artifact_event_def example_world_def call_def add_event_def)


lemma example_configured_fields:
  "ident example_configured = 1"
  "run_map example_configured = []"
  "trace example_configured = []"
  "next_ref example_configured = 0"
  "available_fragment_executors example_configured = [''local'']"
  "fragment_executor_configs example_configured =
     [(''local'', \<lparr>cfg_name = ''local'', cfg_plugin = ''plugins.local'', cfg_settings = []\<rparr>)]"
  "fragment_runners example_configured = [(''local'', [])]"
  by (simp_all add: example_configured_def init_main_runner_def)

lemma example_fetch_fails_fields:
  "fromJSON example_fetch_fails a b c = Some \<lparr>sbi_fragments =
          [\<lparr>sbf_id = 100, sbf_parameters = ''p100'', sbf_input_artifact_paths = [''in.tar'']\<rparr>],
          sbi_input_artifact_paths = []\<rparr>"
  "returns_ok example_fetch_fails h (PluginStart r p st pa)"
  "\<not> returns_ok example_fetch_fails h (GetFragmentInputArtifactRaw x y)"
  "returns_ok example_fetch_fails h (UpdateRun rid rs msg)"
  by (simp_all add: example_fetch_fails_def example_world_def)

lemma example_start_fragments:
  "start_fragments example_fetch_fails [(100, ''p100'')] (fragments example_single_start) []
     example_configured =
   (Inr [(10, 0)],
    example_configured
      \<lparr>next_ref := Suc 0,
       trace := [PluginStart 0 ''plugins.local'' [] ''p100''],
       runner_objs := (runner_objs example_configured)
         (0 := \<lparr>fr_name = ''local'', read_task_running = True,
                create_event_handlers = [], update_event_handlers = [],
                delete_event_handlers = [], query_event_handlers = []\<rparr>),
       fragment_runners := [(''local'', [0])]\<rparr>)"
  by (simp add: example_single_start_def example_configured_fields start_and_record_def
        start_fragment_runner_def call_def example_fetch_fails_fields set_add_def)


subsection \<open>What starting a run establishes\<close>

text \<open>The runners that \<^verbatim>\<open>_start_fragment_runner\<close> creates are pairwise different objects
  and each is in the table of its executor; \<^verbatim>\<open>_start_run\<close>, when it returns, has registered
  a run that is consistent in the sense of \<^const>\<open>run_consistent\<close>, together with a registered
  callback that counts one update for each of its runners.\<close>

lemma update_values:
  "set (map snd (AList.update k v al)) \<subseteq> insert v (set (map snd al))"
  by (induction al) auto

lemma distinct_update_values:
  "distinct (map snd al) \<Longrightarrow> v \<notin> set (map snd al) \<Longrightarrow> distinct (map snd (AList.update k v al))"
proof (induction al)
  case Nil
  then show ?case by simp
next
  case (Cons a al)
  obtain k' v' where a: "a = (k', v')" by (cases a)
  define same where "same = (k' = k)"
  show ?case
  proof (cases same)
    case True
    with Cons.prems a show ?thesis by (auto simp: same_def)
  next
    case False
    have "v' \<notin> set (map snd (AList.update k v al))"
      using update_values [of k v al] Cons.prems a by auto
    with False Cons a show ?thesis by (auto simp: same_def)
  qed
qed

lemma start_fragment_runner_ok:
  assumes "start_fragment_runner w tag parameters s = (Inr r, s')"
  shows "r = next_ref s" "next_ref s' = Suc r" "fr_name (runner_objs s' r) = tag"
    "\<exists>xs. map_of (fragment_runners s') tag = Some xs \<and> r \<in> set xs"
    "x \<noteq> r \<Longrightarrow> runner_objs s' x = runner_objs s x"
    "map_of (fragment_runners s) n = Some xs \<Longrightarrow>
       \<exists>ys. map_of (fragment_runners s') n = Some ys \<and> set xs \<subseteq> set ys"
    "run_map s' = run_map s"
  using assms
  by (auto simp: start_fragment_runner_def Let_def and_then_def call_def update_conv' set_add_def
           split: option.splits if_splits)

lemma start_and_record_ok:
  assumes "start_and_record w pm rf tag frm s = (Inr frm', s')" and "runners_ok frm s"
  shows "runners_ok frm' s'"
proof -
  from assms(1) obtain parameters r where
    st: "start_fragment_runner w tag parameters s = (Inr r, s')"
    and frm': "frm' = AList.update (rf_id rf) r frm"
    by (auto simp: start_and_record_def and_then_Inr split: option.splits)
  note f = start_fragment_runner_ok [OF st]
  have fresh: "r \<notin> set (map snd frm)" using assms(2) f(1) by (auto simp: runners_ok_def)
  have d: "distinct (map snd frm')"
    unfolding frm' using assms(2) fresh by (intro distinct_update_values) (simp_all add: runners_ok_def)
  have "\<forall>x \<in> set (map snd frm').
         x < next_ref s' \<and>
         (\<exists>xs. map_of (fragment_runners s') (fr_name (runner_objs s' x)) = Some xs \<and> x \<in> set xs)"
  proof
    fix x assume "x \<in> set (map snd frm')"
    with update_values [of "rf_id rf" r frm] have "x = r \<or> x \<in> set (map snd frm)"
      unfolding frm' by auto
    then show "x < next_ref s' \<and>
         (\<exists>xs. map_of (fragment_runners s') (fr_name (runner_objs s' x)) = Some xs \<and> x \<in> set xs)"
    proof
      assume "x = r"
      with f(2,3,4) show ?thesis by simp
    next
      assume x: "x \<in> set (map snd frm)"
      with assms(2) obtain xs where
        xs: "x < next_ref s" "map_of (fragment_runners s) (fr_name (runner_objs s x)) = Some xs"
            "x \<in> set xs"
        by (auto simp: runners_ok_def)
      from xs(1) f(1) have ne: "x \<noteq> r" by simp
      from f(6) [OF xs(2)] obtain ys where
        "map_of (fragment_runners s') (fr_name (runner_objs s x)) = Some ys" "set xs \<subseteq> set ys"
        by blast
      with xs f(1,2) f(5) [OF ne] show ?thesis by auto
    qed
  qed
  with d show ?thesis by (simp add: runners_ok_def)
qed

lemma start_fragments_ok:
  "start_fragments w pm rfs frm s = (Inr frm', s') \<Longrightarrow> runners_ok frm s \<Longrightarrow> runners_ok frm' s'"
proof (induction rfs arbitrary: frm s)
  case Nil
  then show ?case by simp
next
  case (Cons rf rfs)
  from Cons.prems(1) obtain tag frm1 s1 where
    one: "start_and_record w pm rf tag frm s = (Inr frm1, s1)"
    and rest: "start_fragments w pm rfs frm1 s1 = (Inr frm', s')"
    by (auto split: option.splits list.splits prod.splits sum.splits if_splits)
  from Cons.IH [OF rest start_and_record_ok [OF one Cons.prems(2)]] show ?case .
qed

lemma register_callback_names [simp]:
  "fr_name (runner_objs (register_callback c et hs s) x) = fr_name (runner_objs s x)"
  by (induction hs arbitrary: s) simp_all

lemma register_callback_keeps_other:
  "\<exists>cs. map_of (get_table s h) et = Some cs \<and> c \<in> set cs \<Longrightarrow>
   \<exists>cs. map_of (get_table (register_callback c' et' hs s) h) et = Some cs \<and> c \<in> set cs"
proof (induction hs arbitrary: s)
  case Nil
  then show ?case by simp
next
  case (Cons h' hs)
  show ?case
    unfolding register_callback.simps
    by (rule Cons.IH)
       (use Cons.prems in \<open>auto simp: get_table_put_table update_conv' set_add_def split: option.splits\<close>)
qed

lemma new_callback_registered:
  assumes "distinct hs"
  shows "registered (snd (new_callback hs et cls s)) (next_ref s)"
  unfolding registered_def
  using assms new_callback_facts(8) by (simp add: new_callback_facts)

lemma new_callback_keeps_registered:
  assumes "registered s c" and "c \<noteq> next_ref s"
  shows "registered (snd (new_callback hs et cls s)) c"
proof -
  have co: "callback_objs (snd (new_callback hs et cls s)) c = callback_objs s c"
    using assms(2) by (simp add: new_callback_facts)
  have "\<And>h et2. \<exists>cs. map_of (get_table s h) et2 = Some cs \<and> c \<in> set cs \<Longrightarrow>
     \<exists>cs. map_of (get_table (snd (new_callback hs et cls s)) h) et2 = Some cs \<and> c \<in> set cs"
  proof -
    fix h et2
    assume a: "\<exists>cs. map_of (get_table s h) et2 = Some cs \<and> c \<in> set cs"
    define s1 where "s1 = s\<lparr>next_ref := Suc (next_ref s),
                 callback_objs := (callback_objs s)
                   (next_ref s := \<lparr>handlers = hs, event_type = et, cb_class = cls\<rparr>)\<rparr>"
    have "get_table s1 h = get_table s h" by (simp add: s1_def get_table_def)
    with a have "\<exists>cs. map_of (get_table s1 h) et2 = Some cs \<and> c \<in> set cs" by simp
    then have "\<exists>cs. map_of (get_table (register_callback (next_ref s) et hs s1) h) et2 = Some cs \<and>
                 c \<in> set cs"
      by (rule register_callback_keeps_other)
    then show "\<exists>cs. map_of (get_table (snd (new_callback hs et cls s)) h) et2 = Some cs \<and> c \<in> set cs"
      by (simp add: new_callback_def Let_def s1_def)
  qed
  with assms(1) show ?thesis unfolding registered_def co by blast
qed

lemma new_callback_runners:
  "fr_name (runner_objs (snd (new_callback hs et cls s)) x) = fr_name (runner_objs s x)"
  "fragment_runners (snd (new_callback hs et cls s)) = fragment_runners s"
  by (simp_all add: new_callback_def Let_def)

lemma trace_update_same: "\<exists>tr. s = s\<lparr>trace := tr\<rparr>"
  by (rule exI [of _ "trace s"]) simp

lemma dispatch_start_events_step:
  "dispatch_start_events w sb_inst event p ia frm (rf # rfs) ok s = (r, s') \<Longrightarrow>
   (\<exists>tr. s' = s\<lparr>trace := tr\<rparr>) \<or>
   (\<exists>tr ok1. dispatch_start_events w sb_inst event p ia frm rfs ok1 (s\<lparr>trace := tr\<rparr>) = (r, s'))"
  by (auto simp: Let_def call_def call_bytes_def trace_update_same
           split: option.splits prod.splits sum.splits if_splits)

lemma dispatch_start_events_frame:
  "dispatch_start_events w sb_inst event p ia frm rfs ok s = (r, s') \<Longrightarrow>
   runner_objs s' = runner_objs s \<and> callback_objs s' = callback_objs s \<and>
   run_objs s' = run_objs s \<and> run_map s' = run_map s \<and> fragment_runners s' = fragment_runners s"
proof (induction rfs arbitrary: ok s)
  case Nil
  then show ?case by (simp split: if_splits)
next
  case (Cons rf rfs)
  from dispatch_start_events_step [OF Cons.prems] show ?case
  proof
    assume "\<exists>tr. s' = s\<lparr>trace := tr\<rparr>"
    then show ?thesis by auto
  next
    assume "\<exists>tr ok1. dispatch_start_events w sb_inst event p ia frm rfs ok1 (s\<lparr>trace := tr\<rparr>) = (r, s')"
    then obtain tr ok1 where
      "dispatch_start_events w sb_inst event p ia frm rfs ok1 (s\<lparr>trace := tr\<rparr>) = (r, s')"
      by blast
    from Cons.IH [OF this] show ?thesis by simp
  qed
qed

lemma new_run_facts:
  "fst (new_run rid frm s) = next_ref s"
  "next_ref (snd (new_run rid frm s)) = Suc (next_ref s)"
  "run_objs (snd (new_run rid frm s)) (next_ref s) =
     \<lparr>run_id = rid, fragment_runner_map = frm, cancelled = False,
      fragment_run_state = map (\<lambda>kv. (fst kv, RunState_SPAWNED)) frm,
      run_state_callback = None, output_artifact_callback = None\<rparr>"
  "runner_objs (snd (new_run rid frm s)) = runner_objs s"
  "callback_objs (snd (new_run rid frm s)) = callback_objs s"
  "fragment_runners (snd (new_run rid frm s)) = fragment_runners s"
  "run_map (snd (new_run rid frm s)) = run_map s"
  by (simp_all add: new_run_def Let_def)

lemma registered_run_objs:
  "registered (s\<lparr>run_objs := ro\<rparr>) c = registered s c"
  "registered (s\<lparr>run_map := rm\<rparr>) c = registered s c"
  by (simp_all add: registered_def get_table_def)

lemma register_run_consistent:
  assumes ok: "runners_ok frm s"
    and res: "register_run w rid event p update sb_inst ia frm s = (r, s')"
  shows "map_of (run_map s') rid = Some (next_ref s) \<and>
         run_consistent s' (next_ref s) \<and>
         registered s' (Suc (next_ref s)) \<and>
         cb_class (callback_objs s' (Suc (next_ref s))) =
           BundleUpdatesEventCallback
             \<lparr>event_id = ev_id event, runners = length frm, received_updates = 0,
              success = True, update_event = update\<rparr> \<and>
         fragment_runner_map (run_objs s' (next_ref s)) = frm"
proof -
  define n where "n = next_ref s"
  define rs where "rs = map snd frm"
  define hsU where "hsU = map (\<lambda>x. (x, UpdateHandlers)) rs"
  define hsC where "hsC = map (\<lambda>x. (x, CreateHandlers)) rs"
  define s1 where "s1 = snd (new_run rid frm s)"
  define s2 where "s2 = s1\<lparr>run_map := AList.update rid n (run_map s1)\<rparr>"
  define cls3 where "cls3 = BundleUpdatesEventCallback
             \<lparr>event_id = ev_id event, runners = length frm, received_updates = 0,
              success = True, update_event = update\<rparr>"
  define s3 where "s3 = snd (new_callback hsU ''ApiRunEventUpdate'' cls3 s2)"
  define s4 where "s4 = snd (new_callback hsC ''ApiRunFragmentStateEventCreate''
                               (RunFragmentStateCallback n) s3)"
  define s5 where "s5 = s4\<lparr>run_objs := (run_objs s4)
                 (n := (run_objs s4 n)\<lparr>run_state_callback := Some (Suc (Suc n))\<rparr>)\<rparr>"
  define s6 where "s6 = snd (new_callback hsC ''ApiRunFragmentOutputArtifactEventCreate''
                               (RunFragmentOutputArtifactCallback rid) s5)"
  define s7 where "s7 = s6\<lparr>run_objs := (run_objs s6)
                 (n := (run_objs s6 n)\<lparr>output_artifact_callback := Some (Suc (Suc (Suc n)))\<rparr>)\<rparr>"
  have nr: "next_ref s2 = Suc n" "next_ref s3 = Suc (Suc n)" "next_ref s4 = Suc (Suc (Suc n))"
    "next_ref s5 = Suc (Suc (Suc n))"
    by (simp_all add: s5_def s4_def s3_def s2_def s1_def new_callback_facts new_run_facts n_def)
  have ro2: "run_objs s2 n =
     \<lparr>run_id = rid, fragment_runner_map = frm, cancelled = False,
      fragment_run_state = map (\<lambda>kv. (fst kv, RunState_SPAWNED)) frm,
      run_state_callback = None, output_artifact_callback = None\<rparr>"
    by (simp add: s2_def s1_def new_run_facts n_def)
  have ro: "run_objs s3 = run_objs s2" "run_objs s4 = run_objs s2"
    "run_objs s6 = run_objs s5"
    by (simp_all add: s6_def s4_def s3_def new_callback_facts)
  have eq: "register_run w rid event p update sb_inst ia frm s =
          dispatch_start_events w sb_inst event p ia frm (fragments p) True s7"
    by (simp add: register_run_def Let_def s7_def s6_def s5_def s4_def s3_def s2_def s1_def
          cls3_def hsU_def hsC_def rs_def n_def new_run_facts new_callback_facts)
  from ok have drs: "distinct rs"
    and mem: "\<forall>x \<in> set rs. \<exists>xs. map_of (fragment_runners s) (fr_name (runner_objs s x)) = Some xs \<and>
                x \<in> set xs"
    by (simp_all add: runners_ok_def rs_def)
  have dh: "distinct hsU" "distinct hsC"
    using drs by (simp_all add: hsU_def hsC_def distinct_map inj_on_def)
  have r3: "registered s3 (Suc n)"
    unfolding s3_def using new_callback_registered [OF dh(1), of "''ApiRunEventUpdate''" cls3 s2]
    by (simp add: nr)
  have r4: "registered s4 (Suc n)" "registered s4 (Suc (Suc n))"
    unfolding s4_def
    using new_callback_keeps_registered [OF r3, of hsC] new_callback_registered [OF dh(2), of _ _ s3]
    by (simp_all add: nr)
  have r5: "registered s5 (Suc n)" "registered s5 (Suc (Suc n))"
    using r4 by (simp_all add: s5_def registered_run_objs)
  have r6: "registered s6 (Suc n)" "registered s6 (Suc (Suc n))" "registered s6 (Suc (Suc (Suc n)))"
    unfolding s6_def
    using new_callback_keeps_registered [OF r5(1), of hsC]
          new_callback_keeps_registered [OF r5(2), of hsC]
          new_callback_registered [OF dh(2), of _ _ s5]
    by (simp_all add: nr)
  have r7: "registered s7 (Suc n)" "registered s7 (Suc (Suc n))" "registered s7 (Suc (Suc (Suc n)))"
    using r6 by (simp_all add: s7_def registered_run_objs)
  have ro7: "run_objs s7 n =
     \<lparr>run_id = rid, fragment_runner_map = frm, cancelled = False,
      fragment_run_state = map (\<lambda>kv. (fst kv, RunState_SPAWNED)) frm,
      run_state_callback = Some (Suc (Suc n)),
      output_artifact_callback = Some (Suc (Suc (Suc n)))\<rparr>"
    by (simp add: s7_def s6_def s5_def s4_def s3_def new_callback_facts ro2)
  have rm7: "map_of (run_map s7) rid = Some n"
    by (simp add: s7_def s6_def s5_def s4_def s3_def s2_def new_callback_facts update_conv')
  have cb3: "cb_class (callback_objs s3 (Suc n)) = cls3"
    unfolding s3_def using new_callback_facts(1) [of hsU "''ApiRunEventUpdate''" cls3 s2]
    by (simp add: nr)
  have cb7: "cb_class (callback_objs s7 (Suc n)) = cls3"
    using cb3 by (simp add: s7_def s6_def s5_def s4_def new_callback_facts nr)
  have fr7: "fragment_runners s7 = fragment_runners s"
    "\<And>x. fr_name (runner_objs s7 x) = fr_name (runner_objs s x)"
    by (simp_all add: s7_def s6_def s5_def s4_def s3_def s2_def s1_def new_callback_runners
          new_run_facts)
  have c7: "run_consistent s7 n"
    unfolding run_consistent_def ro7 using r7 drs mem by (simp add: fr7 rs_def)
  from res have "dispatch_start_events w sb_inst event p ia frm (fragments p) True s7 = (r, s')"
    by (simp add: eq)
  from dispatch_start_events_frame [OF this] have fr:
    "runner_objs s' = runner_objs s7" "callback_objs s' = callback_objs s7"
    "run_objs s' = run_objs s7" "run_map s' = run_map s7"
    "fragment_runners s' = fragment_runners s7"
    by simp_all
  have reg: "\<And>c. registered s' c = registered s7 c"
    by (rule registered_cong) (simp_all add: fr)
  have "run_consistent s' n"
    using c7 unfolding run_consistent_def reg fr by simp
  with rm7 r7(1) cb7 ro7 show ?thesis
    by (simp add: reg fr n_def [symmetric] cls3_def)
qed

lemma start_run_consistent:
  assumes "start_run w rid event p update s = (Inr (), s')"
  shows "\<exists>run c. map_of (run_map s') rid = Some run \<and> run_consistent s' run \<and>
           registered s' c \<and>
           cb_class (callback_objs s' c) =
             BundleUpdatesEventCallback
               \<lparr>event_id = ev_id event,
                runners = length (fragment_runner_map (run_objs s' run)),
                received_updates = 0, success = True, update_event = update\<rparr>"
proof -
  from assms obtain sb_inst ia s1 frm s2 where
    sf: "start_fragments w
           (fold (\<lambda>f m. AList.update (sbf_id f) (sbf_parameters f) m) (sbi_fragments sb_inst) [])
           (fragments p) [] s1 = (Inr frm, s2)"
    and rr: "register_run w rid event p update sb_inst ia frm s2 = (Inr (), s')"
    by (auto simp: start_run_def Let_def and_then_Inr split: option.splits)
  have "runners_ok [] s1" by (simp add: runners_ok_def)
  from start_fragments_ok [OF sf this] have "runners_ok frm s2" .
  from register_run_consistent [OF this rr] show ?thesis by auto
qed

subsection \<open>Removing a callback twice\<close>

text \<open>
  C9, as stated: a second \<^verbatim>\<open>remove_callback\<close> is safe.  It is not: in the example,
  the state callback 4 is removed once, and the second removal raises \<^verbatim>\<open>KeyError\<close>,
  because \<^verbatim>\<open>set.remove\<close> raises when the element is gone.
\<close>

theorem remove_callback_twice_counterexample:
  "fst (remove_callback 4 example_running) = Inr () \<and>
   fst (remove_callback 4 (snd (remove_callback 4 example_running))) = Inl KeyError"
  by (simp add: remove_callback_def example_running_callbacks example_running_tables
        set_remove_def get_table_put_table)

text \<open>
  C9, amended.  For a registered callback, the first \<^verbatim>\<open>remove_callback\<close> returns and
  leaves the callback in none of its handler tables.  A second call changes no handler
  table (it leaves the whole state as it is), but it returns normally only when the
  callback has no handler table at all; with at least one table it raises
  \<^verbatim>\<open>KeyError\<close>.
\<close>

theorem remove_callback_twice:
  assumes "registered s c"
  shows "\<exists>s1. remove_callback c s = (Inr (), s1) \<and>
           (\<forall>h \<in> set (handlers (callback_objs s c)).
              \<exists>cs. map_of (get_table s1 h) (event_type (callback_objs s c)) = Some cs \<and> c \<notin> set cs) \<and>
           remove_callback c s1 =
             (if handlers (callback_objs s c) = [] then (Inr (), s1) else (Inl KeyError, s1))"
proof -
  from remove_callback_ok [OF assms] obtain s1 where s1:
    "remove_callback c s = (Inr (), s1)" "callback_objs s1 = callback_objs s"
    "\<forall>h \<in> set (handlers (callback_objs s c)).
       \<exists>cs. map_of (get_table s1 h) (event_type (callback_objs s c)) = Some cs \<and> c \<notin> set cs"
    by blast
  have "remove_callback c s1 =
          (if handlers (callback_objs s c) = [] then (Inr (), s1) else (Inl KeyError, s1))"
    using s1(2,3) remove_from_absent [of "handlers (callback_objs s c)" s1 "event_type (callback_objs s c)" c]
    by (auto simp: remove_callback_def)
  with s1 show ?thesis by blast
qed

theorem remove_callback_twice_witness:
  "registered example_running 5 \<and>
   fst (remove_callback 5 example_running) = Inr () \<and>
   remove_callback 5 (snd (remove_callback 5 example_running)) =
     (Inl KeyError, snd (remove_callback 5 example_running))"
proof -
  have h: "handlers (callback_objs example_running 5) \<noteq> []"
    by (simp add: example_running_callbacks)
  from remove_callback_twice [OF example_running_registered(3)] h
  show ?thesis using example_running_registered(3) by auto
qed

subsection \<open>The aggregating callback\<close>

text \<open>
  C1.  Let \<open>c\<close> be a registered \<^verbatim>\<open>BundleUpdatesEventCallback\<close> with event id \<open>E\<close>,
  arity \<open>N\<close> and a counter that is at most \<open>N\<close> (it is 0 after construction), and let
  the callback be called with an update event.  When the id of the event is not \<open>E\<close>, the
  call returns false and changes nothing.  When it is \<open>E\<close> and the counter is below
  \<open>N\<close>, the call returns true and the counter grows by one; in every case the counter
  stays at most \<open>N\<close> (a matching call with the counter at \<open>N\<close> fails its assertion and
  changes nothing).  Exactly when the counter reaches \<open>N\<close>, one \<^verbatim>\<open>update_events\<close>
  call is made, with a bundle that holds the stored update event only, and the callback
  is then in none of its handler tables; before that, no external call is made and no
  handler table changes.  The backend call is assumed to return.
\<close>

theorem bundle_updates_callback_arity:
  assumes cls: "cb_class (callback_objs s c) = BundleUpdatesEventCallback b"
    and reg: "registered s c"
    and inv: "received_updates b \<le> runners b"
    and ev: "id_attr event = Some i" "event_status_attr event = Some st"
    and ok: "\<forall>bundle. returns_ok w (trace s) (UpdateEvents bundle)"
  shows "\<exists>r s' b'. callback w c event s = (r, s') \<and>
      cb_class (callback_objs s' c) = BundleUpdatesEventCallback b' \<and>
      received_updates b' \<le> runners b' \<and> runners b' = runners b \<and> event_id b' = event_id b \<and>
      (if i \<noteq> event_id b then r = Inr False \<and> s' = s
       else if received_updates b = runners b then r = Inl AssertionError \<and> s' = s
       else r = Inr True \<and> received_updates b' = Suc (received_updates b) \<and>
            (if received_updates b' = runners b
             then update_event b' =
                    set_event_status
                      (if success b \<and> st = Some ApiEventStatus_COMPLETED
                       then ApiEventStatus_COMPLETED else ApiEventStatus_ERROR)
                      (update_event b) \<and>
                  trace s' =
                    trace s @ [UpdateEvents [(discriminator_of (update_event b'), [update_event b'])]] \<and>
                  (\<forall>h \<in> set (handlers (callback_objs s c)).
                     \<exists>cs. map_of (get_table s' h) (event_type (callback_objs s c)) = Some cs \<and>
                          c \<notin> set cs)
             else trace s' = trace s \<and> runner_objs s' = runner_objs s))"
proof -
  consider (mismatch) "i \<noteq> event_id b"
    | (exhausted) "i = event_id b" "received_updates b = runners b"
    | (final) "i = event_id b" "Suc (received_updates b) = runners b"
    | (nonfinal) "i = event_id b" "Suc (received_updates b) < runners b"
    using inv by linarith
  then show ?thesis
  proof cases
    case mismatch
    with bundle_callback_mismatch [OF cls ev(1)] cls inv show ?thesis by auto
  next
    case exhausted
    with bundle_callback_exhausted [OF cls] ev(1) cls inv show ?thesis by auto
  next
    case final
    define b3 where "b3 = b\<lparr>received_updates := Suc (received_updates b),
                 success := success b \<and> st = Some ApiEventStatus_COMPLETED,
                 update_event :=
                   set_event_status
                     (if success b \<and> st = Some ApiEventStatus_COMPLETED
                      then ApiEventStatus_COMPLETED else ApiEventStatus_ERROR)
                     (update_event b)\<rparr>"
    have idv: "id_attr event = Some (event_id b)" using ev(1) final(1) by simp
    from bundle_callback_final [OF cls reg idv ev(2) final(2) ok b3_def]
    obtain s' where s': "callback w c event s = (Inr True, s')"
       "cb_class (callback_objs s' c) = BundleUpdatesEventCallback b3"
       "trace s' = trace s @ [UpdateEvents (add_event (update_event b3) [])]"
       "\<forall>h \<in> set (handlers (callback_objs s c)).
            \<exists>cs. map_of (get_table s' h) (event_type (callback_objs s c)) = Some cs \<and> c \<notin> set cs"
      by blast
    have "received_updates b3 = runners b" "runners b3 = runners b" "event_id b3 = event_id b"
       "received_updates b3 = Suc (received_updates b)"
       "update_event b3 =
          set_event_status
            (if success b \<and> st = Some ApiEventStatus_COMPLETED
             then ApiEventStatus_COMPLETED else ApiEventStatus_ERROR)
            (update_event b)"
      using final(2) by (simp_all add: b3_def)
    moreover have "trace s' =
        trace s @ [UpdateEvents [(discriminator_of (update_event b3), [update_event b3])]]"
      using s'(3) by (simp add: add_event_def)
    ultimately show ?thesis using s'(1,2,4) final by auto
  next
    case nonfinal
    define b2 where "b2 = b\<lparr>received_updates := Suc (received_updates b),
            success := success b \<and> st = Some ApiEventStatus_COMPLETED\<rparr>"
    have idv: "id_attr event = Some (event_id b)" using ev(1) nonfinal(1) by simp
    have "callback w c event s = (Inr True, set_callback_class c (BundleUpdatesEventCallback b2) s)"
      using bundle_callback_nonfinal [OF cls idv ev(2) nonfinal(2)] by (simp add: b2_def)
    moreover have "received_updates b2 = Suc (received_updates b)" "runners b2 = runners b"
      "event_id b2 = event_id b"
      by (simp_all add: b2_def)
    ultimately show ?thesis using nonfinal
      by (auto intro!: exI [of _ b2])
  qed
qed

theorem bundle_updates_callback_arity_witness:
  "registered example_one_received 3 \<and>
   fst (callback example_world 3 (ApiRunEventUpdate 7 1 (Some 3) (Some ApiEventStatus_COMPLETED))
          example_one_received) = Inr True \<and>
   trace (snd (callback example_world 3
                 (ApiRunEventUpdate 7 1 (Some 3) (Some ApiEventStatus_COMPLETED))
                 example_one_received)) =
     trace example_one_received @
       [UpdateEvents [(''ApiRunEventUpdate'',
          [ApiRunEventUpdate 7 1 (Some 3) (Some ApiEventStatus_COMPLETED)])]]"
proof -
  define b where "b = \<lparr>event_id = 7, runners = 2, received_updates = 1, success = True,
           update_event = example_update\<rparr>"
  have cls: "cb_class (callback_objs example_one_received 3) = BundleUpdatesEventCallback b"
    by (simp add: example_one_received_def b_def)
  have inv: "received_updates b \<le> runners b" by (simp add: b_def)
  have ev: "id_attr (ApiRunEventUpdate 7 1 (Some 3) (Some ApiEventStatus_COMPLETED)) = Some 7"
     "event_status_attr (ApiRunEventUpdate 7 1 (Some 3) (Some ApiEventStatus_COMPLETED)) =
        Some (Some ApiEventStatus_COMPLETED)"
    by simp_all
  have ok: "\<forall>bundle. returns_ok example_world (trace example_one_received) (UpdateEvents bundle)"
    by (simp add: example_world_def)
  from bundle_updates_callback_arity [OF cls example_one_received_registered inv ev ok]
  show ?thesis using example_one_received_registered
    by (auto simp: b_def example_update_def)
qed

text \<open>
  C2.  A registered \<^verbatim>\<open>BundleUpdatesEventCallback\<close> of arity \<open>N > 0\<close>, as constructed
  (counter 0, success true), is called with \<open>N\<close> update events of its event id.  Then
  all calls return, the single \<^verbatim>\<open>update_events\<close> call carries the stored update
  event, and the status written into it is \<^verbatim>\<open>COMPLETED\<close> if every one of the \<open>N\<close>
  events had status \<^verbatim>\<open>COMPLETED\<close>, and \<^verbatim>\<open>ERROR\<close> otherwise.
\<close>

theorem aggregated_status_composition:
  assumes "cb_class (callback_objs s c) = BundleUpdatesEventCallback b"
    and "received_updates b = 0" and "success b"
    and "event_status_attr (update_event b) \<noteq> None"
    and "registered s c"
    and "length events = runners b" and "events \<noteq> []"
    and "\<forall>ev \<in> set events. id_attr ev = Some (event_id b) \<and> event_status_attr ev \<noteq> None"
    and "\<forall>bundle. returns_ok w (trace s) (UpdateEvents bundle)"
  shows "\<exists>s' b'. callback_seq w c events s = (Inr (), s') \<and>
      cb_class (callback_objs s' c) = BundleUpdatesEventCallback b' \<and>
      trace s' = trace s @ [UpdateEvents [(discriminator_of (update_event b'), [update_event b'])]] \<and>
      update_event b' =
        set_event_status
          (if \<forall>ev \<in> set events. event_status_attr ev = Some (Some ApiEventStatus_COMPLETED)
           then ApiEventStatus_COMPLETED else ApiEventStatus_ERROR)
          (update_event b) \<and>
      event_status_attr (update_event b') =
        Some (Some (if \<forall>ev \<in> set events. event_status_attr ev = Some (Some ApiEventStatus_COMPLETED)
                    then ApiEventStatus_COMPLETED else ApiEventStatus_ERROR))"
proof -
  have cnt: "received_updates b + length events = runners b" using assms(2,6) by simp
  from callback_seq_bundle [OF assms(1) assms(5) cnt assms(7) assms(8) assms(9)]
  obtain s' b' where r: "callback_seq w c events s = (Inr (), s')"
      "cb_class (callback_objs s' c) = BundleUpdatesEventCallback b'"
      "update_event b' =
        set_event_status
          (if success b \<and> (\<forall>ev \<in> set events. event_status_attr ev = Some (Some ApiEventStatus_COMPLETED))
           then ApiEventStatus_COMPLETED else ApiEventStatus_ERROR)
          (update_event b)"
      "trace s' = trace s @ [UpdateEvents (add_event (update_event b') [])]"
    by blast
  have "event_status_attr (update_event b') =
        Some (Some (if \<forall>ev \<in> set events. event_status_attr ev = Some (Some ApiEventStatus_COMPLETED)
                    then ApiEventStatus_COMPLETED else ApiEventStatus_ERROR))"
    using r(3) assms(3) event_status_attr_set [OF assms(4)] by simp
  moreover have "trace s' = trace s @ [UpdateEvents [(discriminator_of (update_event b'), [update_event b'])]]"
    using r(4) by (simp add: add_event_def)
  moreover have "update_event b' =
        set_event_status
          (if \<forall>ev \<in> set events. event_status_attr ev = Some (Some ApiEventStatus_COMPLETED)
           then ApiEventStatus_COMPLETED else ApiEventStatus_ERROR)
          (update_event b)"
    using r(3) assms(3) by simp
  ultimately show ?thesis using r(1,2) by blast
qed

theorem aggregated_status_composition_witness:
  "registered example_running 3 \<and>
   fst (callback_seq example_world 3
          [ApiRunEventUpdate 7 1 (Some 3) (Some ApiEventStatus_COMPLETED),
           ApiRunEventUpdate 7 1 (Some 3) (Some ApiEventStatus_CANCELLED)] example_running) = Inr () \<and>
   trace (snd (callback_seq example_world 3
          [ApiRunEventUpdate 7 1 (Some 3) (Some ApiEventStatus_COMPLETED),
           ApiRunEventUpdate 7 1 (Some 3) (Some ApiEventStatus_CANCELLED)] example_running)) =
     trace example_running @
       [UpdateEvents [(''ApiRunEventUpdate'',
          [ApiRunEventUpdate 7 1 (Some 3) (Some ApiEventStatus_ERROR)])]]"
proof -
  define b where "b = \<lparr>event_id = 7, runners = 2, received_updates = 0, success = True,
           update_event = example_update\<rparr>"
  define events where "events =
          [ApiRunEventUpdate 7 1 (Some 3) (Some ApiEventStatus_COMPLETED),
           ApiRunEventUpdate 7 1 (Some 3) (Some ApiEventStatus_CANCELLED)]"
  have cls: "cb_class (callback_objs example_running 3) = BundleUpdatesEventCallback b"
    by (simp add: example_running_callbacks b_def)
  have h: "received_updates b = 0" "success b" "event_status_attr (update_event b) \<noteq> None"
    "length events = runners b" "events \<noteq> []"
    "\<forall>ev \<in> set events. id_attr ev = Some (event_id b) \<and> event_status_attr ev \<noteq> None"
    by (simp_all add: b_def events_def example_update_def)
  have ok: "\<forall>bundle. returns_ok example_world (trace example_running) (UpdateEvents bundle)"
    by (simp add: example_world_def)
  have notall: "\<not> (\<forall>ev \<in> set events. event_status_attr ev = Some (Some ApiEventStatus_COMPLETED))"
    by (simp add: events_def)
  from aggregated_status_composition
         [OF cls h(1) h(2) h(3) example_running_registered(1) h(4) h(5) h(6) ok]
  obtain s' and b' :: bundle_updates where r0: "callback_seq example_world 3 events example_running = (Inr (), s')"
    "trace s' = trace example_running @
        [UpdateEvents [(discriminator_of (update_event b'), [update_event b'])]]"
    "update_event b' =
        set_event_status
          (if \<forall>ev \<in> set events. event_status_attr ev = Some (Some ApiEventStatus_COMPLETED)
           then ApiEventStatus_COMPLETED else ApiEventStatus_ERROR)
          (update_event b)"
    by blast
  have r: "callback_seq example_world 3 events example_running = (Inr (), s')"
    "trace s' = trace example_running @
        [UpdateEvents [(discriminator_of (update_event b'), [update_event b'])]]"
    "update_event b' = set_event_status ApiEventStatus_ERROR (update_event b)"
    using r0 notall by simp_all
  have "update_event b' = ApiRunEventUpdate 7 1 (Some 3) (Some ApiEventStatus_ERROR)"
    using r(3) by (simp add: b_def example_update_def)
  with r(1,2) example_running_registered(1) show ?thesis
    unfolding events_def by simp
qed

subsection \<open>Kill and status events\<close>

text \<open>
  C7.  Let a \<^verbatim>\<open>KILL\<close> or \<^verbatim>\<open>SIMULATION_STATUS\<close> event name the run id \<open>rid\<close>.
  When \<open>rid\<close> is not in the run registry, the handler adds the update of the event,
  marked \<^verbatim>\<open>CANCELLED\<close>, to the bundle of updates and leaves the state as it is: no
  external call is made, so nothing is sent to a fragment executor.  When \<open>rid\<close> is in
  the registry, a new \<^verbatim>\<open>BundleUpdatesEventCallback\<close> for the event, with one handler
  table and one expected update per fragment runner of the run, is in the update
  table of every fragment runner of the run, and the calls made are exactly one
  \<^verbatim>\<open>send_events\<close> per fragment runner of the run, with a bundle that holds the
  event only, as \<^verbatim>\<open>ApiEventRead\<close>; the bundle of updates is returned unchanged when
  the sends return.
\<close>

theorem kill_or_status_event:
  assumes "run_event_type event = KILL \<or> run_event_type event = SIMULATION_STATUS"
    and "ev_run_id event = Some rid"
  shows "(map_of (run_map s) rid = None \<longrightarrow>
            handle_run_event w event updates s =
              (Inr (add_event
                      (ApiRunEventUpdate (ev_id event) (ident s) (Some rid)
                         (Some ApiEventStatus_CANCELLED)) updates), s)) \<and>
         (\<forall>run. map_of (run_map s) rid = Some run \<longrightarrow>
            (let rs = map snd (fragment_runner_map (run_objs s run));
                 b = [(discriminator_of (ApiRunEventRead event), [ApiRunEventRead event])];
                 s' = snd (handle_run_event w event updates s)
             in callback_objs s' (next_ref s) =
                  \<lparr>handlers = map (\<lambda>x. (x, UpdateHandlers)) rs,
                   event_type = ''ApiRunEventUpdate'',
                   cb_class = BundleUpdatesEventCallback
                     \<lparr>event_id = ev_id event, runners = length rs, received_updates = 0,
                      success = True,
                      update_event = ApiRunEventUpdate (ev_id event) (ident s) (Some rid) None\<rparr>\<rparr> \<and>
                (\<forall>x \<in> set rs.
                   \<exists>cs. map_of (update_event_handlers (runner_objs s' x)) ''ApiRunEventUpdate'' = Some cs \<and>
                        next_ref s \<in> set cs) \<and>
                trace s' = trace s @ map (\<lambda>x. PluginSendEvents x b ApiEventRead) rs \<and>
                run_map s' = run_map s \<and>
                ((\<forall>h x. returns_ok w h (PluginSendEvents x b ApiEventRead)) \<longrightarrow>
                   fst (handle_run_event w event updates s) = Inr updates)))"
proof (intro conjI allI impI)
  assume "map_of (run_map s) rid = None"
  then show "handle_run_event w event updates s =
              (Inr (add_event
                      (ApiRunEventUpdate (ev_id event) (ident s) (Some rid)
                         (Some ApiEventStatus_CANCELLED)) updates), s)"
    using assms by (auto simp: handle_run_event_def)
next
  fix run
  assume run: "map_of (run_map s) rid = Some run"
  define update where "update = ApiRunEventUpdate (ev_id event) (ident s) (Some rid) None"
  define r where "r = send_events_aggregate_updates w rid event ''ApiRunEventUpdate'' update s"
  have eq: "handle_run_event w event updates s = and_then r (\<lambda>_ s1. (Inr updates, s1))"
    using assms run by (auto simp: handle_run_event_def r_def update_def)
  have s': "snd (handle_run_event w event updates s) = snd r"
    and f: "fst r = Inr () \<Longrightarrow> fst (handle_run_event w event updates s) = Inr updates"
    unfolding eq by (cases r, auto simp: and_then_def split: sum.splits)+
  note facts = send_events_aggregate_updates_facts
                 [OF run refl refl refl, of w event "''ApiRunEventUpdate''" update, folded r_def]
  show "let rs = map snd (fragment_runner_map (run_objs s run));
                 b = [(discriminator_of (ApiRunEventRead event), [ApiRunEventRead event])];
                 s' = snd (handle_run_event w event updates s)
             in callback_objs s' (next_ref s) =
                  \<lparr>handlers = map (\<lambda>x. (x, UpdateHandlers)) rs,
                   event_type = ''ApiRunEventUpdate'',
                   cb_class = BundleUpdatesEventCallback
                     \<lparr>event_id = ev_id event, runners = length rs, received_updates = 0,
                      success = True,
                      update_event = ApiRunEventUpdate (ev_id event) (ident s) (Some rid) None\<rparr>\<rparr> \<and>
                (\<forall>x \<in> set rs.
                   \<exists>cs. map_of (update_event_handlers (runner_objs s' x)) ''ApiRunEventUpdate'' = Some cs \<and>
                        next_ref s \<in> set cs) \<and>
                trace s' = trace s @ map (\<lambda>x. PluginSendEvents x b ApiEventRead) rs \<and>
                run_map s' = run_map s \<and>
                ((\<forall>h x. returns_ok w h (PluginSendEvents x b ApiEventRead)) \<longrightarrow>
                   fst (handle_run_event w event updates s) = Inr updates)"
    unfolding Let_def s'
    using facts f by (simp add: update_def get_table_def table_of_def)
qed

theorem kill_or_status_event_witness:
  "handle_run_event example_world example_kill_unknown [] example_running =
     (Inr [(''ApiRunEventUpdate'',
            [ApiRunEventUpdate 8 1 (Some 999) (Some ApiEventStatus_CANCELLED)])],
      example_running) \<and>
   fst (handle_run_event example_world example_kill_event [] example_running) = Inr [] \<and>
   trace (snd (handle_run_event example_world example_kill_event [] example_running)) =
     [PluginSendEvents 0 [(''ApiRunEventRead'', [ApiRunEventRead example_kill_event])] ApiEventRead,
      PluginSendEvents 1 [(''ApiRunEventRead'', [ApiRunEventRead example_kill_event])] ApiEventRead]"
proof -
  have t1: "run_event_type example_kill_unknown = KILL \<or>
            run_event_type example_kill_unknown = SIMULATION_STATUS"
    and i1: "ev_run_id example_kill_unknown = Some 999"
    and t2: "run_event_type example_kill_event = KILL \<or>
            run_event_type example_kill_event = SIMULATION_STATUS"
    and i2: "ev_run_id example_kill_event = Some 3"
    by (simp_all add: example_kill_unknown_def example_kill_event_def)
  have ok: "\<forall>h x. returns_ok example_world h
              (PluginSendEvents x [(discriminator_of (ApiRunEventRead example_kill_event),
                 [ApiRunEventRead example_kill_event])] ApiEventRead)"
    by (simp add: example_world_def)
  have d: "discriminator_of (ApiRunEventRead example_kill_event) = ''ApiRunEventRead''"
    by (simp add: example_kill_event_def)
  have d': "event_discriminator example_kill_event = ''ApiRunEventRead''"
    by (simp add: example_kill_event_def)
  have a: "handle_run_event example_world example_kill_unknown [] example_running =
     (Inr [(''ApiRunEventUpdate'',
            [ApiRunEventUpdate 8 1 (Some 999) (Some ApiEventStatus_CANCELLED)])],
      example_running)"
    using kill_or_status_event [OF t1 i1, of example_running example_world "[]"]
    by (simp add: example_running_fields add_event_def example_kill_unknown_def
          example_kill_event_def)
  have b: "fst (handle_run_event example_world example_kill_event [] example_running) = Inr [] \<and>
   trace (snd (handle_run_event example_world example_kill_event [] example_running)) =
     [PluginSendEvents 0 [(''ApiRunEventRead'', [ApiRunEventRead example_kill_event])] ApiEventRead,
      PluginSendEvents 1 [(''ApiRunEventRead'', [ApiRunEventRead example_kill_event])] ApiEventRead]"
    using kill_or_status_event [OF t2 i2, of example_running example_world "[]"] ok
    by (simp add: example_running_fields Let_def d')
  from a b show ?thesis by simp
qed

subsection \<open>Passthrough of executor events\<close>

text \<open>
  C3.  Whenever \<^verbatim>\<open>_apply_callbacks\<close> returns, its passthrough bundle and the state it
  leaves are those of \<open>spec_apply_callbacks\<close>.  For one event and the callbacks \<open>cs\<close> of
  its event type: the event is put into the passthrough bundle iff no callback of \<open>cs\<close>
  returns true for it, or the first one that returns true has passthrough true; with
  no match the state is unchanged, and with a match the state is the one the first
  matching callback left, so no callback after it was called.  An event type with no
  entry in the table has all its events forwarded, and no callback is called.
\<close>

theorem apply_callbacks_passthrough:
  "(apply_callbacks w event_bundle h s = (Inr out, s') \<longrightarrow>
      spec_apply_callbacks w event_bundle h s = (out, s')) \<and>
   (run_callbacks w cs event s = (Inr fwd, s1) \<longrightarrow>
      (fwd \<longleftrightarrow>
         (first_match w cs event s = None \<or>
          (\<exists>c. first_match w cs event s = Some c \<and> passthrough (cb_class (callback_objs s c))))) \<and>
      (first_match w cs event s = None \<longrightarrow> s1 = s) \<and>
      (\<forall>c. first_match w cs event s = Some c \<longrightarrow> callback w c event s = (Inr True, s1))) \<and>
   (map_of (get_table s h) et = None \<longrightarrow>
      apply_callbacks w [(et, events)] h s = (Inr (add_events events []), s))"
proof (intro conjI impI)
  assume "apply_callbacks w event_bundle h s = (Inr out, s')"
  then show "spec_apply_callbacks w event_bundle h s = (out, s')"
    unfolding apply_callbacks_def spec_apply_callbacks_def by (rule apply_to_items_spec)
next
  assume rc: "run_callbacks w cs event s = (Inr fwd, s1)"
  define m where "m = first_match w cs event s"
  from run_callbacks_first_match [OF rc]
  have fm: "case m of None \<Rightarrow> fwd \<and> s1 = s
      | Some c \<Rightarrow> fwd = passthrough (cb_class (callback_objs s c)) \<and>
          callback w c event s = (Inr True, s1)"
    by (simp add: m_def)
  show "fwd \<longleftrightarrow>
         (first_match w cs event s = None \<or>
          (\<exists>c. first_match w cs event s = Some c \<and> passthrough (cb_class (callback_objs s c))))"
    using fm unfolding m_def [symmetric] by (cases m) auto
  show "first_match w cs event s = None \<Longrightarrow> s1 = s"
    using fm unfolding m_def [symmetric] by (cases m) auto
  show "\<forall>c. first_match w cs event s = Some c \<longrightarrow> callback w c event s = (Inr True, s1)"
    using fm unfolding m_def [symmetric] by (cases m) auto
next
  assume "map_of (get_table s h) et = None"
  then show "apply_callbacks w [(et, events)] h s = (Inr (add_events events []), s)"
    by (simp add: apply_callbacks_def)
qed

theorem apply_callbacks_passthrough_witness:
  "apply_callbacks example_world example_create_bundle (0, CreateHandlers) example_running =
     (Inr [(''ApiRunFragmentStateEventCreate'', [example_state_event])],
      example_running
        \<lparr>run_objs := (run_objs example_running)
           (2 := (run_objs example_running 2)
              \<lparr>fragment_run_state := [(10, RunState_RUNNING), (11, RunState_SPAWNED)]\<rparr>),
         trace := [SetRunFragmentOutputArtifactRaw 10 ''out.bin'' ''hello'']\<rparr>) \<and>
   spec_apply_callbacks example_world example_create_bundle (0, CreateHandlers) example_running =
     ([(''ApiRunFragmentStateEventCreate'', [example_state_event])],
      example_running
        \<lparr>run_objs := (run_objs example_running)
           (2 := (run_objs example_running 2)
              \<lparr>fragment_run_state := [(10, RunState_RUNNING), (11, RunState_SPAWNED)]\<rparr>),
         trace := [SetRunFragmentOutputArtifactRaw 10 ''out.bin'' ''hello'']\<rparr>)"
  using apply_callbacks_passthrough
          [of example_world example_create_bundle "(0, CreateHandlers)" example_running]
        example_apply_callbacks
  by simp

subsection \<open>Upload of output artifacts\<close>

text \<open>
  C6.  A \<^verbatim>\<open>RunFragmentOutputArtifactCallback\<close> for run \<open>rid\<close> is called with an
  \<^verbatim>\<open>ApiRunFragmentOutputArtifactEventCreate\<close> of run \<open>rid\<close> whose artifact decodes
  (base64) to \<open>bytes\<close>, and the upload returns.  Then the one external call made is
  \<^verbatim>\<open>set_run_fragment_output_artifact_raw\<close> with the run fragment id of the event, a
  stream named by the event's \<^verbatim>\<open>output_artifact_name\<close> and holding \<open>bytes\<close>; the
  callback returns true; its passthrough is false; so the loop over the callbacks
  does not forward the event, and the router, given a bundle with this event only,
  makes no \<^verbatim>\<open>create_events\<close> call.
\<close>

theorem output_artifact_callback_upload:
  assumes cls: "cb_class (callback_objs s c) = RunFragmentOutputArtifactCallback rid"
    and dec: "b64decode w output_artifact = Some bytes"
    and ok: "returns_ok w (trace s) (SetRunFragmentOutputArtifactRaw rfid name bytes)"
    and ev: "event = ApiRunFragmentOutputArtifactEventCreate rid rfid output_artifact name"
    and s': "s' = s\<lparr>trace := trace s @ [SetRunFragmentOutputArtifactRaw rfid name bytes]\<rparr>"
  shows "callback w c event s = (Inr True, s') \<and>
         \<not> passthrough (cb_class (callback_objs s c)) \<and>
         run_callbacks w (c # cs) event s = (Inr False, s') \<and>
         (map_of (create_event_handlers (runner_objs s r)) (discriminator_of event) = Some (c # cs) \<longrightarrow>
            handle_fragment_runner_event w
              \<lparr>fre_fragment_runner = r, fre_event_type = ApiEventCreate,
               fre_event_bundle = [(discriminator_of event, [event])]\<rparr> s = (Inr (), s'))"
proof -
  have cb: "callback w c event s = (Inr True, s')"
    using cls dec ok by (simp add: callback_def run_fragment_output_artifact_callback_def ev s' call_def)
  have pt: "\<not> passthrough (cb_class (callback_objs s c))" using cls by simp
  have "cb_class (callback_objs s' c) = RunFragmentOutputArtifactCallback rid"
    using cls by (simp add: s')
  with cb have rc: "run_callbacks w (c # cs) event s = (Inr False, s')" by simp
  have "map_of (create_event_handlers (runner_objs s r)) (discriminator_of event) = Some (c # cs) \<Longrightarrow>
            handle_fragment_runner_event w
              \<lparr>fre_fragment_runner = r, fre_event_type = ApiEventCreate,
               fre_event_bundle = [(discriminator_of event, [event])]\<rparr> s = (Inr (), s')"
    using rc
    by (simp add: handle_fragment_runner_event_def apply_callbacks_def get_table_def table_of_def
          empty_bundle_def del: run_callbacks.simps)
  with cb pt rc show ?thesis by blast
qed

theorem output_artifact_callback_upload_witness:
  "b64decode example_world ''aGVsbG8='' = Some ''hello'' \<and>
   callback example_world 5 example_artifact_event example_running =
     (Inr True, example_running\<lparr>trace := [SetRunFragmentOutputArtifactRaw 10 ''out.bin'' ''hello'']\<rparr>) \<and>
   handle_fragment_runner_event example_world
     \<lparr>fre_fragment_runner = 0, fre_event_type = ApiEventCreate,
      fre_event_bundle = [(''ApiRunFragmentOutputArtifactEventCreate'', [example_artifact_event])]\<rparr>
     example_running =
     (Inr (), example_running\<lparr>trace := [SetRunFragmentOutputArtifactRaw 10 ''out.bin'' ''hello'']\<rparr>)"
proof -
  have cls: "cb_class (callback_objs example_running 5) = RunFragmentOutputArtifactCallback 3"
    by (simp add: example_running_callbacks)
  have dec: "b64decode example_world ''aGVsbG8='' = Some ''hello''"
    by (simp add: example_world_def)
  have ok: "returns_ok example_world (trace example_running)
              (SetRunFragmentOutputArtifactRaw 10 ''out.bin'' ''hello'')"
    by (simp add: example_world_def)
  have tbl: "map_of (create_event_handlers (runner_objs example_running 0))
               (discriminator_of example_artifact_event) = Some [5]"
    by (simp add: example_running_runners example_artifact_event_def)
  from output_artifact_callback_upload [OF cls dec ok example_artifact_event_def refl, of "[]" 0] tbl dec
  show ?thesis
    by (simp add: example_running_fields example_artifact_event_def)
qed

subsection \<open>The default executor\<close>



subsection \<open>A start that fails after the run is registered\<close>

text \<open>
  C5 says that a \<^verbatim>\<open>START_RUN\<close> event whose handling raises leaves no run in the
  registry.  \<^verbatim>\<open>_start_run\<close> puts the run into \<^verbatim>\<open>_run_map\<close> before it fetches the
  input artifacts of the fragments and sends the start events, and the handler of the
  exception does not take it out.  In the example the fetch of the fragment's input
  artifact raises: the backend is told \<^verbatim>\<open>RunState.ERROR\<close> for run 3 and the update is
  marked \<^verbatim>\<open>ERROR\<close>, as C5 says, but run 3 is still in the registry (and its
  fragment runner is still started).
\<close>

theorem start_failure_keeps_run:
  "fst (handle_run_event example_fetch_fails example_single_start_event [] example_configured) =
     Inr [(''ApiRunEventUpdate'',
           [ApiRunEventUpdate 7 1 (Some 3) (Some ApiEventStatus_ERROR)])] \<and>
   trace (snd (handle_run_event example_fetch_fails example_single_start_event []
                 example_configured)) =
     [PluginStart 0 ''plugins.local'' [] ''p100'', GetFragmentInputArtifactRaw 5 20,
      UpdateRun 3 RunState_ERROR []] \<and>
   run_map (snd (handle_run_event example_fetch_fails example_single_start_event []
                   example_configured)) = [(3, 1)]"
proof -
  define sb_inst where "sb_inst = \<lparr>sbi_fragments =
          [\<lparr>sbf_id = 100, sbf_parameters = ''p100'', sbf_input_artifact_paths = [''in.tar'']\<rparr>],
          sbi_input_artifact_paths = []\<rparr>"
  define update where "update = ApiRunEventUpdate 7 1 (Some 3) None"
  define s2 where "s2 = example_configured
      \<lparr>next_ref := Suc 0,
       trace := [PluginStart 0 ''plugins.local'' [] ''p100''],
       runner_objs := (runner_objs example_configured)
         (0 := \<lparr>fr_name = ''local'', read_task_running = True,
                create_event_handlers = [], update_event_handlers = [],
                delete_event_handlers = [], query_event_handlers = []\<rparr>),
       fragment_runners := [(''local'', [0])]\<rparr>"
  have frs: "fragments example_single_start =
      [\<lparr>rf_id = 10,
        rf_fragment = \<lparr>fragment_id = 20, object_id = 100, fragment_executor_tag = None\<rparr>\<rparr>]"
    by (simp add: example_single_start_def)
  have "\<exists>s'. register_run example_fetch_fails 3 example_single_start_event example_single_start
           update sb_inst None [(10, 0)] s2 = (Inl ExternalError, s') \<and>
           run_map s' = AList.update 3 (next_ref s2) (run_map s2) \<and>
           trace s' = trace s2 @
             [GetFragmentInputArtifactRaw (inst_id example_single_start) 20]"
    using register_run_fetch_fails [OF frs, of sb_inst _ example_fetch_fails 3
            example_single_start_event update None "[(10, 0)]" s2]
    by (simp add: sb_inst_def get_fragment_def example_fetch_fails_fields)
  then obtain s3 where s3:
    "register_run example_fetch_fails 3 example_single_start_event example_single_start
           update sb_inst None [(10, 0)] s2 = (Inl ExternalError, s3)"
    "run_map s3 = [(3, 1)]"
    "trace s3 = [PluginStart 0 ''plugins.local'' [] ''p100'', GetFragmentInputArtifactRaw 5 20]"
    by (auto simp: s2_def example_configured_fields example_single_start_def)
  have sr: "start_run example_fetch_fails 3 example_single_start_event example_single_start
              update example_configured = (Inl ExternalError, s3)"
    using example_start_fragments s3(1)
    by (simp add: start_run_def example_fetch_fails_fields s2_def sb_inst_def
          example_single_start_def [symmetric])
  have "handle_run_event example_fetch_fails example_single_start_event [] example_configured =
          (Inr [(''ApiRunEventUpdate'',
                 [ApiRunEventUpdate 7 1 (Some 3) (Some ApiEventStatus_ERROR)])],
           s3\<lparr>trace := trace s3 @ [UpdateRun 3 RunState_ERROR []]\<rparr>)"
    using sr
    by (simp add: handle_run_event_def example_single_start_event_def example_configured_fields
          update_def call_def example_fetch_fails_fields add_event_def)
  with s3 show ?thesis by simp
qed

subsection \<open>The sweep of the registry\<close>



subsection \<open>A start event for a run that is already executing\<close>

text \<open>
  C10.  When a \<^verbatim>\<open>START_RUN\<close> event names a run id that is in the run registry, the
  handler starts nothing: the whole state of the runner (registry, runs, executors,
  trace of external calls) is unchanged, and the update of the event, marked
  \<^verbatim>\<open>CANCELLED\<close>, is added to the bundle of updates, which is therefore not empty
  and is sent to the backend at the end of the pump tick.
\<close>

theorem start_run_already_registered:
  assumes "run_event_type event = START_RUN"
    and "ev_run_id event = Some rid"
    and "event_discriminator event = ''ApiRunEventStartRunRead''"
    and "as_start_run event = Some p"
    and "map_of (run_map s) rid = Some run"
  shows "handle_run_event w event updates s =
           (Inr (add_event
                   (ApiRunEventUpdate (ev_id event) (ident s) (Some rid) (Some ApiEventStatus_CANCELLED))
                   updates), s) \<and>
         \<not> empty_bundle (add_event
                   (ApiRunEventUpdate (ev_id event) (ident s) (Some rid) (Some ApiEventStatus_CANCELLED))
                   updates)"
  using assms by (simp add: handle_run_event_def add_event_def empty_bundle_def split: option.splits)

theorem start_run_already_registered_witness:
  "map_of (run_map example_running) 3 = Some 2 \<and>
   handle_run_event example_world example_start_event [] example_running =
     (Inr [(''ApiRunEventUpdate'', [ApiRunEventUpdate 7 1 (Some 3) (Some ApiEventStatus_CANCELLED)])],
      example_running)"
proof -
  have h: "map_of (run_map example_running) 3 = Some 2"
    by (simp add: example_running_def)
  have i: "ident example_running = 1"
    by (simp add: example_running_def example_configured_def init_main_runner_def)
  from start_run_already_registered
         [of example_start_event 3 _ example_running 2 example_world "[]", OF _ _ _ _ h]
  show ?thesis using h i by (simp add: example_start_event_def add_event_def)
qed

end
